theory Spec2Isabelle
  imports Main "HOL-Library.Word"
begin

section \<open>Strings, times and the Go library functions the code relies on\<close>

text \<open>
  Go strings are byte sequences, so a string is a \<open>char list\<close>. A \<open>time.Time\<close> is an
  instant; it is modelled as an integer offset from Go's zero time (January 1, year 1, UTC),
  so that \<open>IsZero\<close> is \<open>t = 0\<close>, \<open>Before\<close> is \<open><\<close> and \<open>After\<close> is \<open>>\<close>.
  Go's \<open>int\<close> is a 64-bit machine integer: the line counters that are added up are
  \<open>64 word\<close>s, read as signed where the code compares them.
\<close>

type_synonym time = int

definition HasPrefix :: "string \<Rightarrow> string \<Rightarrow> bool" where
  "HasPrefix s p = (take (length p) s = p)"

definition HasSuffix :: "string \<Rightarrow> string \<Rightarrow> bool" where
  "HasSuffix s suf = (length suf \<le> length s \<and> drop (length s - length suf) s = suf)"

fun Join :: "string list \<Rightarrow> string \<Rightarrow> string" where
  "Join [] sep = []"
| "Join [x] sep = x"
| "Join (x # y # zs) sep = x @ sep @ Join (y # zs) sep"

definition ascii_lower :: "char \<Rightarrow> char" where
  "ascii_lower c =
     (let n = (of_char c :: nat) in if 65 \<le> n \<and> n \<le> 90 then char_of (n + 32) else c)"

definition is_ascii_upper :: "char \<Rightarrow> bool" where
  "is_ascii_upper c = (65 \<le> (of_char c :: nat) \<and> (of_char c :: nat) \<le> 90)"

definition is_ascii :: "char \<Rightarrow> bool" where
  "is_ascii c = ((of_char c :: nat) < 128)"

text \<open>
  \<open>strings.ToLower\<close>: a string of ASCII bytes is lowered byte by byte; any other string
  goes through \<open>unicode.ToLower\<close>, whose tables belong to Go's library and are a
  parameter here.
\<close>

definition ToLower :: "(string \<Rightarrow> string) \<Rightarrow> string \<Rightarrow> string" where
  "ToLower uni s = (if list_all is_ascii s then map ascii_lower s else uni s)"

text \<open>Decimal rendering of \<open>%d\<close>.\<close>

fun fmt_nat :: "nat \<Rightarrow> string" where
  "fmt_nat n = (if n < 10 then [char_of (48 + n)] else fmt_nat (n div 10) @ [char_of (48 + n mod 10)])"

declare fmt_nat.simps [simp del]

definition fmt_d :: "int \<Rightarrow> string" where
  "fmt_d i = (if i < 0 then CHR ''-'' # fmt_nat (nat (- i)) else fmt_nat (nat i))"

subsection \<open>The regular expressions of pr.go\<close>

text \<open>
  \<open>regexp.MatchString\<close> searches for a match anywhere in the string. The engine reads the
  input one UTF-8 rune at a time (\<open>utf8.DecodeRuneInString\<close>; an invalid byte is a rune of
  width 1), and \<open>.\<close> matches any rune but a newline.
\<close>

definition in_range :: "nat \<Rightarrow> nat \<Rightarrow> char \<Rightarrow> bool" where
  "in_range lo hi c = (lo \<le> of_char c \<and> of_char c \<le> hi)"

fun rune_size :: "string \<Rightarrow> nat" where
  "rune_size [] = 0"
| "rune_size (c # cs) =
     (let b = (of_char c :: nat) in
      if b < 0x80 then 1
      else if b < 0xC2 then 1
      else if b < 0xE0 then
        (case cs of c1 # _ \<Rightarrow> if in_range 0x80 0xBF c1 then 2 else 1 | _ \<Rightarrow> 1)
      else if b < 0xF0 then
        (case cs of
           c1 # c2 # _ \<Rightarrow>
             if in_range (if b = 0xE0 then 0xA0 else 0x80) (if b = 0xED then 0x9F else 0xBF) c1
                \<and> in_range 0x80 0xBF c2
             then 3 else 1
         | _ \<Rightarrow> 1)
      else if b < 0xF5 then
        (case cs of
           c1 # c2 # c3 # _ \<Rightarrow>
             if in_range (if b = 0xF0 then 0x90 else 0x80) (if b = 0xF4 then 0x8F else 0xBF) c1
                \<and> in_range 0x80 0xBF c2 \<and> in_range 0x80 0xBF c3
             then 4 else 1
         | _ \<Rightarrow> 1)
      else 1)"

fun match_anywhere :: "(string \<Rightarrow> bool) \<Rightarrow> string \<Rightarrow> bool" where
  "match_anywhere P [] = P []"
| "match_anywhere P (c # cs) = (P (c # cs) \<or> match_anywhere P cs)"

text \<open>The pattern \<open>Gopkg.toml\<close> at the start of \<open>s\<close>: the dot is one rune, not a newline.\<close>

definition Gopkg_toml_at :: "string \<Rightarrow> bool" where
  "Gopkg_toml_at s =
     (HasPrefix s ''Gopkg'' \<and>
      (case drop 5 s of
         [] \<Rightarrow> False
       | c # cs \<Rightarrow> c \<noteq> CHR 0x0A \<and> HasPrefix (drop (rune_size (c # cs)) (c # cs)) ''toml''))"

text \<open>\<open>truncRe = changelog|CHANGELOG|Gopkg.toml\<close>\<close>

definition truncRe_MatchString :: "string \<Rightarrow> bool" where
  "truncRe_MatchString s =
     match_anywhere (\<lambda>r. HasPrefix r ''changelog'' \<or> HasPrefix r ''CHANGELOG'' \<or> Gopkg_toml_at r) s"

text \<open>
  \<open>commentRe = <!--.*?>\<close>, replaced by the empty string: after \<open><!--\<close> the shortest run of
  runes that are not newlines, up to the first \<open>>\<close>. Both delimiters are ASCII, so the
  search is bytewise.
\<close>

fun upto_gt :: "string \<Rightarrow> string option" where
  "upto_gt [] = None"
| "upto_gt (c # cs) =
     (if c = CHR ''>'' then Some cs else if c = CHR 0x0A then None else upto_gt cs)"

lemma upto_gt_shorter: "upto_gt s = Some r \<Longrightarrow> length r < length s"
  by (induction s) (auto split: if_splits)

function commentRe_strip :: "string \<Rightarrow> string" where
  "commentRe_strip [] = []"
| "commentRe_strip (c # cs) =
     (if HasPrefix (c # cs) ''<!--'' then
        (case upto_gt (drop 4 (c # cs)) of
           Some rest \<Rightarrow> commentRe_strip rest
         | None \<Rightarrow> c # commentRe_strip cs)
      else c # commentRe_strip cs)"
  by pat_completeness auto
termination
proof (relation "measure length")
  show "wf (measure length)" by simp
next
  fix c :: char and cs x2
  assume "upto_gt (drop 4 (c # cs)) = Some x2"
  then have "length x2 < length (drop 4 (c # cs))" by (rule upto_gt_shorter)
  then show "(x2, c # cs) \<in> measure length" by simp
qed simp_all

section \<open>Data model\<close>

text \<open>
  The code reads the GitHub structures only through go-github's nil-safe getters
  (\<open>GetLogin\<close>, \<open>GetClosedAt\<close>, ...), which return the zero value for a nil pointer. A
  field below holds what its getter returns; a nil structure is the all-zero record. The
  two places where the code tests a pointer itself (\<open>GetClosedBy() != nil\<close> and
  \<open>IsPullRequest\<close>) keep the pointer as an option or a flag.
\<close>

record User =
  Login :: string
  UserType :: string

record PullRequest =
  pr_Number :: int
  pr_Title :: string
  pr_State :: string
  pr_Body :: string
  pr_HTMLURL :: string
  pr_User :: User
  pr_UpdatedAt :: time
  pr_ClosedAt :: time
  pr_MergedAt :: time
  pr_BaseRef :: string
  pr_Merged :: bool
  pr_MergeCommitSHA :: string
  pr_ChangedFiles :: int

record CommitFile =
  cf_Filename :: string
  cf_Additions :: "64 word"
  cf_Deletions :: "64 word"

record PRSummary =
  ps_URL :: string
  ps_Date :: string
  ps_User :: string
  ps_Project :: string
  ps_Type :: string
  ps_Title :: string
  ps_Delta :: "64 word"
  ps_Added :: "64 word"
  ps_Deleted :: "64 word"
  ps_FilesTotal :: int
  ps_Files :: string
  ps_Description :: string

text \<open>
  Functions the code calls that are defined outside the files at hand: \<open>ParseURL\<close>,
  \<open>prType\<close> and \<open>isBot\<close> of package repo, \<open>time.Format\<close> with the layout \<open>dateForm\<close>,
  and the Unicode branch of \<open>strings.ToLower\<close>.
\<close>

record ext =
  ParseURL :: "string \<Rightarrow> string \<times> string"
  prType :: "CommitFile list \<Rightarrow> string"
  isBot :: "User \<Rightarrow> bool"
  Format_dateForm :: "time \<Rightarrow> string"
  unicode_ToLower :: "string \<Rightarrow> string"

section \<open>The change summarizer: PullSummary\<close>

text \<open>The loop over the files of one pull request; the accumulator is (added, paths, deleted).\<close>

fun files_loop ::
  "CommitFile list \<Rightarrow> 64 word \<times> string list \<times> 64 word \<Rightarrow> 64 word \<times> string list \<times> 64 word" where
  "files_loop [] acc = acc"
| "files_loop (f # fs) (added, paths, deleted) =
     files_loop fs
       (if truncRe_MatchString (cf_Filename f) \<and> 10 <s cf_Additions f
        then added + 10 else added + cf_Additions f,
        paths @ [cf_Filename f],
        deleted + cf_Deletions f)"

text \<open>What one file adds to \<open>added\<close> in that loop.\<close>

definition counted :: "CommitFile \<Rightarrow> 64 word" where
  "counted f =
     (if truncRe_MatchString (cf_Filename f) \<and> 10 <s cf_Additions f then 10 else cf_Additions f)"

text \<open>
  The date test of lines 275-289: \<open>t\<close> is the merge time, or the close time when the merge
  time is zero, and the entry goes on when \<open>t\<close> is neither after \<open>until\<close> nor before
  \<open>since\<close>.
\<close>

definition in_window :: "time \<Rightarrow> time \<Rightarrow> PullRequest \<Rightarrow> bool" where
  "in_window since until pr =
     (let t = (if pr_MergedAt pr = 0 then pr_ClosedAt pr else pr_MergedAt pr)
      in \<not> t > until \<and> \<not> t < since)"

text \<open>The summary row that lines 268-322 build for an entry that is not skipped.\<close>

definition summary_row :: "ext \<Rightarrow> PullRequest \<Rightarrow> CommitFile list \<Rightarrow> PRSummary" where
  "summary_row X pr files =
     (let project = snd (ParseURL X (pr_HTMLURL pr));
          body0 = commentRe_strip (pr_Body pr);
          body = (if length body0 > 240 then take 240 body0 @ ''...'' else body0);
          t = (if pr_MergedAt pr = 0 then pr_ClosedAt pr else pr_MergedAt pr);
          (added, paths, deleted) = files_loop files (0, [], 0)
      in \<lparr> ps_URL = pr_HTMLURL pr,
           ps_Date = Format_dateForm X t,
           ps_User = Login (pr_User pr),
           ps_Project = project,
           ps_Type = prType X files,
           ps_Title = pr_Title pr,
           ps_Delta = added + deleted,
           ps_Added = added,
           ps_Deleted = deleted,
           ps_FilesTotal = pr_ChangedFiles pr,
           ps_Files = Join paths [CHR 0x0A],
           ps_Description = body \<rparr>)"

text \<open>
  The loop over the input map. Go visits a map in an order of its own choosing; the list
  is the entries in the order the \<open>range\<close> loop visits them. The keys are pointers, so
  two entries may carry the same URL. The state is (sum, seen).
\<close>

fun PullSummary_loop ::
  "ext \<Rightarrow> time \<Rightarrow> time \<Rightarrow> (PullRequest \<times> CommitFile list) list
     \<Rightarrow> PRSummary list \<times> string set \<Rightarrow> PRSummary list \<times> string set" where
  "PullSummary_loop X since until [] st = st"
| "PullSummary_loop X since until ((pr, files) # rest) (rows, seen) =
     (if pr_HTMLURL pr \<in> seen then PullSummary_loop X since until rest (rows, seen)
      else
        let seen' = insert (pr_HTMLURL pr) seen;
            t = (if pr_MergedAt pr = 0 then pr_ClosedAt pr else pr_MergedAt pr)
        in if t > until then PullSummary_loop X since until rest (rows, seen')
           else if t < since then PullSummary_loop X since until rest (rows, seen')
           else PullSummary_loop X since until rest (rows @ [summary_row X pr files], seen'))"

datatype error =
  RemoteError string
  | AfterRetries error
  | UnexpectedType
  | CacheWriteError string
  | FetchListFailed error
  | NilDereference

definition PullSummary ::
  "ext \<Rightarrow> (PullRequest \<times> CommitFile list) list \<Rightarrow> time \<Rightarrow> time \<Rightarrow> error + PRSummary list" where
  "PullSummary X prs since until = Inr (fst (PullSummary_loop X since until prs ([], {})))"


section \<open>The remote API, the cache and the retried calls\<close>

record Issue =
  is_Number :: int
  is_Title :: string
  is_State :: string
  is_HTMLURL :: string
  is_User :: User
  is_ClosedBy :: "User option"
  is_UpdatedAt :: time
  is_ClosedAt :: time
  is_CreatedAt :: time
  is_PullRequestLinks :: bool

record IssueSummary =
  isum_URL :: string
  isum_Date :: string
  isum_Author :: string
  isum_Closer :: string
  isum_Project :: string
  isum_Type :: string
  isum_Title :: string

definition nil_User :: User where
  "nil_User = \<lparr> Login = [], UserType = [] \<rparr>"

definition nil_PullRequest :: PullRequest where
  "nil_PullRequest =
     \<lparr> pr_Number = 0, pr_Title = [], pr_State = [], pr_Body = [], pr_HTMLURL = [],
       pr_User = nil_User, pr_UpdatedAt = 0, pr_ClosedAt = 0, pr_MergedAt = 0, pr_BaseRef = [],
       pr_Merged = False, pr_MergeCommitSHA = [], pr_ChangedFiles = 0 \<rparr>"

definition nil_Issue :: Issue where
  "nil_Issue =
     \<lparr> is_Number = 0, is_Title = [], is_State = [], is_HTMLURL = [], is_User = nil_User,
       is_ClosedBy = None, is_UpdatedAt = 0, is_ClosedAt = 0, is_CreatedAt = 0,
       is_PullRequestLinks = False \<rparr>"

text \<open>\<open>persist.Blob\<close>, with the two members these pipelines store.\<close>

record Blob =
  GHPullRequest :: PullRequest
  GHIssue :: Issue

text \<open>The \<open>interface{}\<close> payload of a call, by its dynamic type.\<close>

datatype raw =
  RawNil
  | RawPullRequest PullRequest
  | RawPullRequests "PullRequest list"
  | RawIssue Issue
  | RawIssues "Issue list"
  | RawOther

record Response =
  NextPage :: int
  After :: string

record PullRequestListOptions =
  plo_State :: string
  plo_Sort :: string
  plo_Direction :: string
  plo_Page :: int
  plo_PerPage :: int

record IssueListByRepoOptions =
  ilo_State :: string
  ilo_Sort :: string
  ilo_Direction :: string
  ilo_ListOptions_Page :: int
  ilo_ListOptions_PerPage :: int
  ilo_Cursor_Page :: string
  ilo_Cursor_PerPage :: int
  ilo_Cursor_First :: int
  ilo_Cursor_After :: string

text \<open>
  The collaborators that hold state: the cache (\<open>persist.Cacher\<close>) and the GitHub client.
  Their state is a world \<open>'w\<close> that every call takes and returns. A \<open>retry_\<close> field is
  what \<open>retry.Do\<close> makes of the API call it is given: \<open>Inl\<close> the error once the attempts
  are used up, \<open>Inr\<close> the payload and the response of the attempt that succeeded. The
  response is a pointer and may be nil. Log lines and the texts of error messages are
  not modelled.
\<close>

record 'w remote =
  cache_Get :: "string \<Rightarrow> time \<Rightarrow> 'w \<Rightarrow> Blob option \<times> 'w"
  cache_Set :: "string \<Rightarrow> Blob \<Rightarrow> 'w \<Rightarrow> error option \<times> 'w"
  retry_PullRequests_Get :: "string \<Rightarrow> string \<Rightarrow> int \<Rightarrow> 'w \<Rightarrow> (error + raw \<times> Response option) \<times> 'w"
  retry_PullRequests_List ::
    "string \<Rightarrow> string \<Rightarrow> PullRequestListOptions \<Rightarrow> 'w \<Rightarrow> (error + raw \<times> Response option) \<times> 'w"
  retry_Issues_Get :: "string \<Rightarrow> string \<Rightarrow> int \<Rightarrow> 'w \<Rightarrow> (error + raw \<times> Response option) \<times> 'w"
  retry_Issues_ListByRepo ::
    "string \<Rightarrow> string \<Rightarrow> IssueListByRepoOptions \<Rightarrow> 'w \<Rightarrow> (error + raw \<times> Response option) \<times> 'w"

definition RetryGithubCall ::
  "error + raw \<times> Response option \<Rightarrow> error + raw \<times> Response option" where
  "RetryGithubCall r =
     (case r of
        Inl retryErr \<Rightarrow> Inl (AfterRetries retryErr)
      | Inr (data, ghResp) \<Rightarrow> Inr (data, ghResp))"

text \<open>
  \<open>ghcache.PullRequestsGet\<close> and \<open>ghcache.IssuesGet\<close> return a pointer and an error; both
  can be set at once (the last line returns the entity with the result of \<open>Set\<close>).
\<close>

definition PullRequestsGet ::
  "'w remote \<Rightarrow> time \<Rightarrow> string \<Rightarrow> string \<Rightarrow> int \<Rightarrow> 'w \<Rightarrow> (PullRequest \<times> error option) \<times> 'w" where
  "PullRequestsGet R t org project num w =
     (let key = ''pr-'' @ org @ ''-'' @ project @ ''-'' @ fmt_d num;
          (val, w1) = cache_Get R key t w
      in case val of
           Some b \<Rightarrow> ((GHPullRequest b, None), w1)
         | None \<Rightarrow>
             (let (r, w2) = retry_PullRequests_Get R org project num w1
              in case RetryGithubCall r of
                   Inl err \<Rightarrow> ((nil_PullRequest, Some err), w2)
                 | Inr (rawData, _) \<Rightarrow>
                     (case rawData of
                        RawPullRequest pr \<Rightarrow>
                          (let (e, w3) = cache_Set R key \<lparr> GHPullRequest = pr, GHIssue = nil_Issue \<rparr> w2
                           in ((pr, e), w3))
                      | _ \<Rightarrow> ((nil_PullRequest, Some UnexpectedType), w2))))"

definition IssuesGet ::
  "'w remote \<Rightarrow> time \<Rightarrow> string \<Rightarrow> string \<Rightarrow> int \<Rightarrow> 'w \<Rightarrow> (Issue \<times> error option) \<times> 'w" where
  "IssuesGet R t org project num w =
     (let key = ''issue-'' @ org @ ''-'' @ project @ ''-'' @ fmt_d num;
          (val, w1) = cache_Get R key t w
      in case val of
           Some b \<Rightarrow> ((GHIssue b, None), w1)
         | None \<Rightarrow>
             (let (r, w2) = retry_Issues_Get R org project num w1
              in case RetryGithubCall r of
                   Inl err \<Rightarrow> ((nil_Issue, Some err), w2)
                 | Inr (rawData, _) \<Rightarrow>
                     (case rawData of
                        RawIssue issue \<Rightarrow>
                          (let (e, w3) = cache_Set R key \<lparr> GHPullRequest = nil_PullRequest, GHIssue = issue \<rparr> w2
                           in ((issue, e), w3))
                      | _ \<Rightarrow> ((nil_Issue, Some UnexpectedType), w2))))"

section \<open>Page aggregation\<close>

text \<open>
  Both loops are \<open>for { ... }\<close> with no bound of their own: a server that always announces
  a next page keeps them running. \<open>None\<close> is the run that does not return. A nil response
  dereferenced by \<open>ghResp.NextPage\<close> is the panic \<open>NilDereference\<close>.
\<close>

partial_function (option) pr_pages_loop ::
  "'w remote \<Rightarrow> string \<Rightarrow> string \<Rightarrow> PullRequestListOptions \<Rightarrow> PullRequest list \<Rightarrow> 'w
     \<Rightarrow> ((error + PullRequest list) \<times> 'w) option" where
  "pr_pages_loop R org project currentOpts allPRs w =
     (case retry_PullRequests_List R org project currentOpts w of
        (r, w1) \<Rightarrow>
          (case RetryGithubCall r of
             Inl err \<Rightarrow> Some (Inl err, w1)
           | Inr (rawData, ghResp) \<Rightarrow>
               (case rawData of
                  RawPullRequests pagePRs \<Rightarrow>
                    if length pagePRs = 0 then Some (Inr allPRs, w1)
                    else
                      (case ghResp of
                         None \<Rightarrow> Some (Inl NilDereference, w1)
                       | Some resp \<Rightarrow>
                           if NextPage resp = 0 then Some (Inr (allPRs @ pagePRs), w1)
                           else pr_pages_loop R org project
                                  (currentOpts\<lparr>plo_Page := NextPage resp\<rparr>) (allPRs @ pagePRs) w1)
                | _ \<Rightarrow> Some (Inl UnexpectedType, w1))))"

definition fetchAllPullRequestPages ::
  "'w remote \<Rightarrow> string \<Rightarrow> string \<Rightarrow> PullRequestListOptions \<Rightarrow> 'w
     \<Rightarrow> ((error + PullRequest list) \<times> 'w) option" where
  "fetchAllPullRequestPages R org project listOpts w =
     pr_pages_loop R org project
       (if plo_Page listOpts = 0 then listOpts\<lparr>plo_Page := 1\<rparr> else listOpts) [] w"

text \<open>
  The cursor loop of issue.go; its state is the options, the cursor and the issues so far.
  \<open>cursor_request\<close> is the head of the loop body (the first call asks for the first
  \<open>PerPage\<close> items, a later call passes the cursor); \<open>cursor_setup\<close> is the preparation
  of \<open>currentOpts\<close> before the loop.
\<close>

definition cursor_request :: "IssueListByRepoOptions \<Rightarrow> string \<Rightarrow> IssueListByRepoOptions" where
  "cursor_request currentOpts currentAfterCursor =
     (if currentAfterCursor = []
      then currentOpts\<lparr>ilo_Cursor_First := ilo_Cursor_PerPage currentOpts, ilo_Cursor_After := []\<rparr>
      else currentOpts\<lparr>ilo_Cursor_First := 0, ilo_Cursor_After := currentAfterCursor\<rparr>)"

partial_function (option) issue_pages_loop ::
  "'w remote \<Rightarrow> string \<Rightarrow> string \<Rightarrow> IssueListByRepoOptions \<Rightarrow> string \<Rightarrow> Issue list \<Rightarrow> 'w
     \<Rightarrow> ((error + Issue list) \<times> 'w) option" where
  "issue_pages_loop R org project currentOpts currentAfterCursor allIssues w =
     (case retry_Issues_ListByRepo R org project (cursor_request currentOpts currentAfterCursor) w of
        (r, w1) \<Rightarrow>
          (case RetryGithubCall r of
             Inl err \<Rightarrow> Some (Inl err, w1)
           | Inr (rawData, ghResp) \<Rightarrow>
               (case rawData of
                  RawIssues pageIssues \<Rightarrow>
                    (case ghResp of
                       None \<Rightarrow>
                         Some (Inr (if length pageIssues > 0 then allIssues @ pageIssues else allIssues), w1)
                     | Some resp \<Rightarrow>
                         if After resp = []
                         then Some (Inr (if length pageIssues > 0 then allIssues @ pageIssues
                                         else allIssues), w1)
                         else issue_pages_loop R org project
                                (cursor_request currentOpts currentAfterCursor) (After resp)
                                (if length pageIssues > 0 then allIssues @ pageIssues else allIssues) w1)
                | RawNil \<Rightarrow>
                    (case ghResp of
                       None \<Rightarrow> Some (Inr allIssues, w1)
                     | Some resp \<Rightarrow>
                         if After resp = [] then Some (Inr allIssues, w1)
                         else Some (Inl UnexpectedType, w1))
                | _ \<Rightarrow> Some (Inl UnexpectedType, w1))))"

definition cursor_setup :: "IssueListByRepoOptions \<Rightarrow> IssueListByRepoOptions" where
  "cursor_setup listOpts =
     (let o1 = listOpts\<lparr>ilo_ListOptions_Page := 0, ilo_Cursor_Page := []\<rparr>;
          o2 = (if ilo_Cursor_PerPage o1 = 0
                then (if ilo_ListOptions_PerPage o1 \<noteq> 0
                      then o1\<lparr>ilo_Cursor_PerPage := ilo_ListOptions_PerPage o1\<rparr>
                      else o1\<lparr>ilo_Cursor_PerPage := 100\<rparr>)
                else o1)
      in o2\<lparr>ilo_ListOptions_PerPage := 0, ilo_Cursor_First := 0\<rparr>)"

definition fetchAllIssuePages ::
  "'w remote \<Rightarrow> string \<Rightarrow> string \<Rightarrow> IssueListByRepoOptions \<Rightarrow> 'w
     \<Rightarrow> ((error + Issue list) \<times> 'w) option" where
  "fetchAllIssuePages R org project listOpts w =
     issue_pages_loop R org project (cursor_setup listOpts) [] [] w"

subsection \<open>What the server serves\<close>

text \<open>
  \<open>offset_pages R org project opts w pages w'\<close>: asked from the request \<open>opts\<close> on in world
  \<open>w\<close>, each time for the page number the previous response announced, the server
  serves the pages \<open>pages\<close>, every one but the last non-empty and with a next page number
  that is not zero, and the last one either empty or with no next page; \<open>w'\<close> is the world
  after the last request. \<open>cursor_pages\<close> is the same for cursors: every response but the
  last carries a cursor, the last one carries none, and any page may be empty.
\<close>

inductive offset_pages ::
  "'w remote \<Rightarrow> string \<Rightarrow> string \<Rightarrow> PullRequestListOptions \<Rightarrow> 'w \<Rightarrow> PullRequest list list \<Rightarrow> 'w \<Rightarrow> bool"
  for R :: "'w remote" and org :: string and project :: string where
  empty_page:
    "retry_PullRequests_List R org project opts w = (Inr (RawPullRequests [], resp), w1)
     \<Longrightarrow> offset_pages R org project opts w [[]] w1"
| no_next_page:
    "retry_PullRequests_List R org project opts w = (Inr (RawPullRequests items, Some resp), w1)
     \<Longrightarrow> items \<noteq> [] \<Longrightarrow> NextPage resp = 0
     \<Longrightarrow> offset_pages R org project opts w [items] w1"
| next_page:
    "retry_PullRequests_List R org project opts w = (Inr (RawPullRequests items, Some resp), w1)
     \<Longrightarrow> items \<noteq> [] \<Longrightarrow> NextPage resp \<noteq> 0
     \<Longrightarrow> offset_pages R org project (opts\<lparr>plo_Page := NextPage resp\<rparr>) w1 rest w'
     \<Longrightarrow> offset_pages R org project opts w (items # rest) w'"

inductive cursor_pages ::
  "'w remote \<Rightarrow> string \<Rightarrow> string \<Rightarrow> IssueListByRepoOptions \<Rightarrow> string \<Rightarrow> 'w \<Rightarrow> Issue list list \<Rightarrow> 'w \<Rightarrow> bool"
  for R :: "'w remote" and org :: string and project :: string where
  no_response:
    "retry_Issues_ListByRepo R org project (cursor_request opts cursor) w = (Inr (RawIssues items, None), w1)
     \<Longrightarrow> cursor_pages R org project opts cursor w [items] w1"
| no_cursor:
    "retry_Issues_ListByRepo R org project (cursor_request opts cursor) w = (Inr (RawIssues items, Some resp), w1)
     \<Longrightarrow> After resp = []
     \<Longrightarrow> cursor_pages R org project opts cursor w [items] w1"
| next_cursor:
    "retry_Issues_ListByRepo R org project (cursor_request opts cursor) w = (Inr (RawIssues items, Some resp), w1)
     \<Longrightarrow> After resp \<noteq> []
     \<Longrightarrow> cursor_pages R org project (cursor_request opts cursor) (After resp) w1 rest w'
     \<Longrightarrow> cursor_pages R org project opts cursor w (items # rest) w'"

section \<open>The filter pipelines\<close>

text \<open>
  What one pass of a \<open>range\<close> loop body does: \<open>break\<close>, \<open>continue\<close>, or append to
  \<open>result\<close> and go on.
\<close>

datatype 'a outcome = Stop | Skip | Include 'a

fun range_loop ::
  "('a \<Rightarrow> 'w \<Rightarrow> 'b outcome \<times> 'w) \<Rightarrow> 'a list \<Rightarrow> 'b list \<Rightarrow> 'w \<Rightarrow> 'b list \<times> 'w" where
  "range_loop body [] result w = (result, w)"
| "range_loop body (x # xs) result w =
     (case body x w of
        (Stop, w') \<Rightarrow> (result, w')
      | (Skip, w') \<Rightarrow> range_loop body xs result w'
      | (Include y, w') \<Rightarrow> range_loop body xs (result @ [y]) w')"

subsection \<open>MergedPulls\<close>

text \<open>
  \<open>matchUser\<close> and \<open>matchBranch\<close> are maps to \<open>true\<close> used as sets: \<open>len(m) > 0\<close> is
  \<open>m \<noteq> {}\<close> and \<open>m[k]\<close> is \<open>k \<in> m\<close>.
\<close>

definition MergedPulls_body ::
  "ext \<Rightarrow> 'w remote \<Rightarrow> string \<Rightarrow> string \<Rightarrow> time \<Rightarrow> time \<Rightarrow> string set \<Rightarrow> string set
     \<Rightarrow> PullRequest \<Rightarrow> 'w \<Rightarrow> PullRequest outcome \<times> 'w" where
  "MergedPulls_body X R org project since until matchUser matchBranch pr w =
     (if pr_UpdatedAt pr < since then (Stop, w)
      else if pr_ClosedAt pr = 0 then (Skip, w)
      else if pr_ClosedAt pr > until then (Skip, w)
      else if pr_ClosedAt pr < since then (Skip, w)
      else if matchUser \<noteq> {} \<and> ToLower (unicode_ToLower X) (Login (pr_User pr)) \<notin> matchUser
        then (Skip, w)
      else if isBot X (pr_User pr) then (Skip, w)
      else if pr_State pr \<noteq> ''closed'' then (Skip, w)
      else
        let cacheTime0 = pr_MergedAt pr;
            cacheTime1 = (if cacheTime0 = 0 then pr_ClosedAt pr else cacheTime0);
            cacheTime = (if cacheTime1 = 0 then pr_UpdatedAt pr else cacheTime1);
            ((fullPR, err), w') = PullRequestsGet R cacheTime org project (pr_Number pr) w
        in if err \<noteq> None then (Skip, w')
           else if matchBranch \<noteq> {} \<and> pr_BaseRef fullPR \<notin> matchBranch then (Skip, w')
           else if \<not> pr_Merged fullPR \<or> pr_MergeCommitSHA fullPR = [] then (Skip, w')
           else if pr_MergedAt fullPR = 0 then (Skip, w')
           else if pr_MergedAt fullPR > until then (Skip, w')
           else if pr_MergedAt fullPR < since then (Skip, w')
           else (Include fullPR, w'))"

text \<open>The listing request of \<open>MergedPulls\<close> (lines 101-108).\<close>

definition MergedPulls_opts :: PullRequestListOptions where
  "MergedPulls_opts =
     \<lparr> plo_State = ''closed'', plo_Sort = ''updated'', plo_Direction = ''desc'',
       plo_Page = 0, plo_PerPage = 100 \<rparr>"

definition MergedPulls ::
  "ext \<Rightarrow> 'w remote \<Rightarrow> string \<Rightarrow> string \<Rightarrow> time \<Rightarrow> time \<Rightarrow> string list \<Rightarrow> string list \<Rightarrow> 'w
     \<Rightarrow> ((error + PullRequest list) \<times> 'w) option" where
  "MergedPulls X R org project since until users branches w =
     (let opts = MergedPulls_opts;
          matchUser = set (map (ToLower (unicode_ToLower X)) users);
          matchBranch = set (map (ToLower (unicode_ToLower X)) branches)
      in case fetchAllPullRequestPages R org project opts w of
           None \<Rightarrow> None
         | Some (Inl err, w1) \<Rightarrow> Some (Inl (FetchListFailed err), w1)
         | Some (Inr allFetchedPRs, w1) \<Rightarrow>
             if length allFetchedPRs = 0 then Some (Inr [], w1)
             else
               (case range_loop (MergedPulls_body X R org project since until matchUser matchBranch)
                       allFetchedPRs [] w1 of
                  (result, w2) \<Rightarrow> Some (Inr result, w2)))"

subsection \<open>issues and ClosedIssues\<close>

definition issueDate :: "Issue \<Rightarrow> time" where
  "issueDate i =
     (let t0 = is_ClosedAt i;
          t1 = (if t0 = 0 then is_UpdatedAt i else t0);
          t2 = (if t1 = 0 then is_CreatedAt i else t1)
      in t2)"

definition issues_body ::
  "ext \<Rightarrow> 'w remote \<Rightarrow> string \<Rightarrow> string \<Rightarrow> time \<Rightarrow> time \<Rightarrow> string set \<Rightarrow> string
     \<Rightarrow> Issue \<Rightarrow> 'w \<Rightarrow> Issue outcome \<times> 'w" where
  "issues_body X R org project since until matchUser state i w =
     (if is_PullRequestLinks i then (Skip, w)
      else if is_UpdatedAt i < since then (Stop, w)
      else if state = ''closed'' \<and> is_ClosedAt i = 0 then (Skip, w)
      else if state = ''closed'' \<and> is_ClosedAt i > until then (Skip, w)
      else if state = ''closed'' \<and> is_ClosedAt i < since then (Skip, w)
      else if state \<noteq> [] \<and> is_State i \<noteq> state then (Skip, w)
      else
        let t = issueDate i;
            ((full, err), w') = IssuesGet R t org project (is_Number i) w
        in if err \<noteq> None then (Skip, w')
           else
             let creatorLogin = Login (is_User full);
                 matchesUserFilter =
                   (if matchUser = {} then True
                    else (ToLower (unicode_ToLower X) creatorLogin \<in> matchUser
                          \<or> (case is_ClosedBy full of
                                None \<Rightarrow> False
                              | Some closer \<Rightarrow>
                                  Login closer \<noteq> []
                                  \<and> ToLower (unicode_ToLower X) (Login closer) \<in> matchUser)))
             in if \<not> matchesUserFilter then (Skip, w') else (Include full, w'))"

text \<open>The listing request of \<open>issues\<close>; the fields it does not set are zero.\<close>

definition issues_opts :: "string \<Rightarrow> IssueListByRepoOptions" where
  "issues_opts state =
     \<lparr> ilo_State = state, ilo_Sort = ''updated'', ilo_Direction = ''desc'',
       ilo_ListOptions_Page = 0, ilo_ListOptions_PerPage = 50,
       ilo_Cursor_Page = [], ilo_Cursor_PerPage = 0, ilo_Cursor_First = 0,
       ilo_Cursor_After = [] \<rparr>"

definition issues ::
  "ext \<Rightarrow> 'w remote \<Rightarrow> string \<Rightarrow> string \<Rightarrow> time \<Rightarrow> time \<Rightarrow> string list \<Rightarrow> string \<Rightarrow> 'w
     \<Rightarrow> ((error + Issue list) \<times> 'w) option" where
  "issues X R org project since until users state w =
     (let opts = issues_opts state;
          matchUser = set (map (ToLower (unicode_ToLower X)) users)
      in case fetchAllIssuePages R org project opts w of
           None \<Rightarrow> None
         | Some (Inl err, w1) \<Rightarrow> Some (Inl (FetchListFailed err), w1)
         | Some (Inr allFetchedIssues, w1) \<Rightarrow>
             if length allFetchedIssues = 0 then Some (Inr [], w1)
             else
               (case range_loop (issues_body X R org project since until matchUser state)
                       allFetchedIssues [] w1 of
                  (result, w2) \<Rightarrow> Some (Inr result, w2)))"

definition GetClosedBy_Login :: "Issue \<Rightarrow> string" where
  "GetClosedBy_Login i = (case is_ClosedBy i of None \<Rightarrow> [] | Some u \<Rightarrow> Login u)"

text \<open>The row that \<open>ClosedIssues\<close> builds for one returned issue (lines 50-57).\<close>

definition issue_summary :: "ext \<Rightarrow> string \<Rightarrow> Issue \<Rightarrow> IssueSummary" where
  "issue_summary X project i =
     \<lparr> isum_URL = is_HTMLURL i,
       isum_Date = Format_dateForm X (is_ClosedAt i),
       isum_Author = Login (is_User i),
       isum_Closer = GetClosedBy_Login i,
       isum_Project = project,
       isum_Type = [],
       isum_Title = is_Title i \<rparr>"

definition ClosedIssues ::
  "ext \<Rightarrow> 'w remote \<Rightarrow> string \<Rightarrow> string \<Rightarrow> time \<Rightarrow> time \<Rightarrow> string list \<Rightarrow> 'w
     \<Rightarrow> ((error + IssueSummary list) \<times> 'w) option" where
  "ClosedIssues X R org project since until users w =
     (case issues X R org project since until users ''closed'' w of
        None \<Rightarrow> None
      | Some (Inl err, w1) \<Rightarrow> Some (Inl err, w1)
      | Some (Inr closed, w1) \<Rightarrow> Some (Inr (map (issue_summary X project) closed), w1))"

subsection \<open>The issue-opener tally of the leaderboard\<close>

text \<open>
  \<open>issueOpenerChart\<close> counts into \<open>uMap\<close> and hands it to \<open>topItems (mapToItems uMap)\<close>,
  which are defined outside the files at hand; the function below is the chart's \<open>uMap\<close>.
\<close>

fun issueOpener_loop ::
  "(string \<Rightarrow> string) \<Rightarrow> string set \<Rightarrow> IssueSummary list \<Rightarrow> (string \<rightharpoonup> int) \<Rightarrow> (string \<rightharpoonup> int)" where
  "issueOpener_loop uni matchUser [] uMap = uMap"
| "issueOpener_loop uni matchUser (i # rest) uMap =
     (let author = isum_Author i
      in if matchUser \<noteq> {} \<and> ToLower uni author \<notin> matchUser
           then issueOpener_loop uni matchUser rest uMap
         else if \<not> HasSuffix author ''bot''
           then issueOpener_loop uni matchUser rest
                  (uMap(author \<mapsto> (case uMap author of None \<Rightarrow> 0 | Some n \<Rightarrow> n) + 1))
         else issueOpener_loop uni matchUser rest uMap)"

definition issueOpenerChart_uMap :: "ext \<Rightarrow> IssueSummary list \<Rightarrow> string list \<Rightarrow> (string \<rightharpoonup> int)" where
  "issueOpenerChart_uMap X is users =
     issueOpener_loop (unicode_ToLower X) (set (map (ToLower (unicode_ToLower X)) users)) is Map.empty"

section \<open>Observing the reads of the cache\<close>

text \<open>
  \<open>logged R\<close> behaves as \<open>R\<close> and keeps, next to the world of \<open>R\<close>, the list of the
  (key, asOfTime) pairs that \<open>Get\<close> was called with, in call order.
\<close>

definition logged :: "'w remote \<Rightarrow> ('w \<times> (string \<times> time) list) remote" where
  "logged R =
     \<lparr> cache_Get = (\<lambda>k t (w, l). case cache_Get R k t w of (v, w') \<Rightarrow> (v, (w', l @ [(k, t)]))),
       cache_Set = (\<lambda>k b (w, l). case cache_Set R k b w of (e, w') \<Rightarrow> (e, (w', l))),
       retry_PullRequests_Get =
         (\<lambda>org project num (w, l).
            case retry_PullRequests_Get R org project num w of (r, w') \<Rightarrow> (r, (w', l))),
       retry_PullRequests_List =
         (\<lambda>org project opts (w, l).
            case retry_PullRequests_List R org project opts w of (r, w') \<Rightarrow> (r, (w', l))),
       retry_Issues_Get =
         (\<lambda>org project num (w, l).
            case retry_Issues_Get R org project num w of (r, w') \<Rightarrow> (r, (w', l))),
       retry_Issues_ListByRepo =
         (\<lambda>org project opts (w, l).
            case retry_Issues_ListByRepo R org project opts w of (r, w') \<Rightarrow> (r, (w', l))) \<rparr>"

section \<open>Example data\<close>

text \<open>
  A small project for the concrete instances below: two closed, merged pull requests on
  two pages, followed by one that was last updated long ago; three issue pages, the second
  one empty with a cursor, the third ending with two old items, the first of them a pull
  request; a cache kept as an association list, whose writes fail when the flag is set.
\<close>

definition example_ext :: ext where
  "example_ext =
     \<lparr> ParseURL = (\<lambda>u. (''o'', ''p'')), prType = (\<lambda>fs. ''code''),
       isBot = (\<lambda>u. HasSuffix (Login u) ''-bot''),
       Format_dateForm = (\<lambda>t. ''2021-01-05''), unicode_ToLower = (\<lambda>s. s) \<rparr>"

definition example_pr :: "int \<Rightarrow> PullRequest" where
  "example_pr n =
     \<lparr> pr_Number = n, pr_Title = ''fix'', pr_State = ''closed'', pr_Body = [],
       pr_HTMLURL = ''https://github.com/o/p/pull/'' @ fmt_d n,
       pr_User = \<lparr> Login = ''alice'', UserType = ''User'' \<rparr>,
       pr_UpdatedAt = 16, pr_ClosedAt = 15, pr_MergedAt = 14, pr_BaseRef = ''main'',
       pr_Merged = True, pr_MergeCommitSHA = ''abc'', pr_ChangedFiles = 1 \<rparr>"

definition example_issue :: "int \<Rightarrow> string \<Rightarrow> Issue" where
  "example_issue n author =
     \<lparr> is_Number = n, is_Title = ''bug'', is_State = ''closed'',
       is_HTMLURL = ''https://github.com/o/p/issues/'' @ fmt_d n,
       is_User = \<lparr> Login = author, UserType = ''User'' \<rparr>,
       is_ClosedBy = Some \<lparr> Login = ''carol'', UserType = ''User'' \<rparr>,
       is_UpdatedAt = 16, is_ClosedAt = 15, is_CreatedAt = 12, is_PullRequestLinks = False \<rparr>"

definition old_pr :: PullRequest where
  "old_pr = (example_pr 9)\<lparr>pr_UpdatedAt := 5, pr_ClosedAt := 4, pr_MergedAt := 4\<rparr>"

definition old_issues :: "Issue list" where
  "old_issues =
     [(example_issue 3 ''alice'')\<lparr>is_UpdatedAt := 5, is_ClosedAt := 4, is_PullRequestLinks := True\<rparr>,
      (example_issue 4 ''alice'')\<lparr>is_UpdatedAt := 4, is_ClosedAt := 4\<rparr>]"

text \<open>
  A cache that still holds issue 2 as it was recorded without a close time, in the state
  closed.
\<close>

definition stale_issue :: Issue where
  "stale_issue = (example_issue 2 ''alice'')\<lparr>is_ClosedAt := 0\<rparr>"

definition stale_cache :: "(string \<times> Blob) list" where
  "stale_cache = [(''issue-o-p-2'', \<lparr> GHPullRequest = nil_PullRequest, GHIssue = stale_issue \<rparr>)]"

definition example_remote :: "bool \<Rightarrow> (string \<times> Blob) list remote" where
  "example_remote write_fails =
     \<lparr> cache_Get = (\<lambda>k t w. (map_of w k, w)),
       cache_Set = (\<lambda>k b w. if write_fails then (Some (CacheWriteError ''read-only store''), w)
                             else (None, (k, b) # w)),
       retry_PullRequests_Get = (\<lambda>org project num w. (Inr (RawPullRequest (example_pr num), None), w)),
       retry_PullRequests_List = (\<lambda>org project opts w.
          (if plo_Page opts = 1
             then Inr (RawPullRequests [example_pr 7], Some \<lparr> NextPage = 2, After = [] \<rparr>)
           else if plo_Page opts = 2
             then Inr (RawPullRequests [example_pr 8, old_pr], Some \<lparr> NextPage = 0, After = [] \<rparr>)
           else Inr (RawPullRequests [], Some \<lparr> NextPage = 0, After = [] \<rparr>), w)),
       retry_Issues_Get = (\<lambda>org project num w.
          (Inr (RawIssue (example_issue num (if num = 1 then ''deploy-bot'' else ''alice'')), None), w)),
       retry_Issues_ListByRepo = (\<lambda>org project opts w.
          (if ilo_Cursor_After opts = []
             then Inr (RawIssues [example_issue 1 ''deploy-bot''], Some \<lparr> NextPage = 0, After = ''c1'' \<rparr>)
           else if ilo_Cursor_After opts = ''c1''
             then Inr (RawIssues [], Some \<lparr> NextPage = 0, After = ''c2'' \<rparr>)
           else Inr (RawIssues (example_issue 2 ''alice'' # old_issues),
                     Some \<lparr> NextPage = 0, After = [] \<rparr>), w)) \<rparr>"

section \<open>Properties of the change summarizer\<close>

lemma files_loop_sum:
  "files_loop fs (a, p, d) =
     (a + sum_list (map counted fs), p @ map cf_Filename fs, d + sum_list (map cf_Deletions fs))"
  by (induction fs arbitrary: a p d) (simp_all add: counted_def add.assoc)

lemma summary_row_counts:
  "ps_Added (summary_row X pr fs) = sum_list (map counted fs)"
  "ps_Deleted (summary_row X pr fs) = sum_list (map cf_Deletions fs)"
  "ps_URL (summary_row X pr fs) = pr_HTMLURL pr"
  by (simp_all add: summary_row_def Let_def files_loop_sum)

lemma PullSummary_loop_step:
  "PullSummary_loop X since until ((pr, fs) # rest) (rows, seen) =
     PullSummary_loop X since until rest
       (if pr_HTMLURL pr \<notin> seen \<and> in_window since until pr
        then rows @ [summary_row X pr fs] else rows,
        insert (pr_HTMLURL pr) seen)"
  by (auto simp: Let_def in_window_def insert_absorb)

lemma PullSummary_loop_append:
  "PullSummary_loop X since until (xs @ ys) st =
     PullSummary_loop X since until ys (PullSummary_loop X since until xs st)"
proof (induction xs arbitrary: st)
  case Nil
  show ?case by simp
next
  case (Cons e xs)
  obtain pr fs where e: "e = (pr, fs)" by (cases e)
  obtain rows seen where st: "st = (rows, seen)" by (cases st)
  show ?case unfolding e st by (simp add: Cons.IH Let_def)
qed

lemma PullSummary_loop_filter:
  "filter (\<lambda>r. ps_URL r = u) (fst (PullSummary_loop X since until prs (rows, seen))) =
     filter (\<lambda>r. ps_URL r = u) rows @
     (if u \<in> seen then []
      else case find (\<lambda>e. pr_HTMLURL (fst e) = u) prs of
             None \<Rightarrow> []
           | Some e \<Rightarrow>
               if in_window since until (fst e) then [summary_row X (fst e) (snd e)] else [])"
proof (induction prs arbitrary: rows seen)
  case Nil
  show ?case by simp
next
  case (Cons e prs)
  obtain pr fs where e: "e = (pr, fs)" by (cases e)
  show ?case unfolding e PullSummary_loop_step
    by (simp add: Cons.IH summary_row_counts)
qed

lemma PullSummary_loop_rows:
  "r \<in> set (fst (PullSummary_loop X since until prs (rows, seen))) \<Longrightarrow>
     r \<in> set rows
     \<or> (\<exists>e \<in> set prs. r = summary_row X (fst e) (snd e) \<and> in_window since until (fst e))"
proof (induction prs arbitrary: rows seen)
  case Nil
  then show ?case by simp
next
  case (Cons e prs)
  obtain pr fs where e: "e = (pr, fs)" by (cases e)
  from Cons.prems
  have "r \<in> set (if pr_HTMLURL pr \<notin> seen \<and> in_window since until pr
                   then rows @ [summary_row X pr fs] else rows)
        \<or> (\<exists>e \<in> set prs. r = summary_row X (fst e) (snd e) \<and> in_window since until (fst e))"
    unfolding e PullSummary_loop_step by (rule Cons.IH)
  then show ?case unfolding e by (auto split: if_splits)
qed

lemma fmt_d_digits:
  "fmt_d 1 = ''1''" "fmt_d 2 = ''2''" "fmt_d 3 = ''3''" "fmt_d 7 = ''7''" "fmt_d 8 = ''8''"
  "fmt_d 9 = ''9''"
  by code_simp+

lemma truncRe_examples:
  "truncRe_MatchString ''docs/CHANGELOG.md''" "\<not> truncRe_MatchString ''pkg/repo/pr.go''"
  by (simp_all add: truncRe_MatchString_def HasPrefix_def Gopkg_toml_at_def)

text \<open>
  C6. In the summary of a pull request, a file with 37 added lines adds 10 to the total of
  added lines when its path matches \<open>truncRe\<close> and 37 when it does not, and the total of
  deleted lines is the sum of the deleted lines of all the files, none of them capped. The
  totals are 64-bit sums. The first conjunct says that the row in question is the one
  \<open>PullSummary\<close> returns for the pull request.
\<close>

theorem truncated_additions:
  assumes "cf_Additions f = 37" and "in_window since until pr"
  shows "PullSummary X [(pr, fs1 @ f # fs2)] since until = Inr [summary_row X pr (fs1 @ f # fs2)]
       \<and> ps_Added (summary_row X pr (fs1 @ f # fs2)) =
           ps_Added (summary_row X pr (fs1 @ fs2))
           + (if truncRe_MatchString (cf_Filename f) then 10 else 37)
       \<and> ps_Deleted (summary_row X pr (fs1 @ f # fs2)) =
           sum_list (map cf_Deletions (fs1 @ f # fs2))"
proof -
  have "counted f = (if truncRe_MatchString (cf_Filename f) then 10 else 37)"
    using assms(1) by (simp add: counted_def)
  then have "ps_Added (summary_row X pr (fs1 @ f # fs2)) =
        ps_Added (summary_row X pr (fs1 @ fs2))
        + (if truncRe_MatchString (cf_Filename f) then 10 else 37)"
    by (simp add: summary_row_counts)
  moreover
  have "PullSummary X [(pr, fs1 @ f # fs2)] since until = Inr [summary_row X pr (fs1 @ f # fs2)]"
    using assms(2) by (simp add: PullSummary_def in_window_def Let_def)
  ultimately show ?thesis by (simp add: summary_row_counts)
qed

text \<open>The instance: a changelog with 37 added lines next to a source file with 37.\<close>

theorem truncated_additions_witness:
  "ps_Added (summary_row example_ext (example_pr 7)
       ([\<lparr> cf_Filename = ''pkg/repo/pr.go'', cf_Additions = 37, cf_Deletions = 50 \<rparr>]
        @ \<lparr> cf_Filename = ''docs/CHANGELOG.md'', cf_Additions = 37, cf_Deletions = 40 \<rparr> # [])) = 47
   \<and> ps_Deleted (summary_row example_ext (example_pr 7)
       ([\<lparr> cf_Filename = ''pkg/repo/pr.go'', cf_Additions = 37, cf_Deletions = 50 \<rparr>]
        @ \<lparr> cf_Filename = ''docs/CHANGELOG.md'', cf_Additions = 37, cf_Deletions = 40 \<rparr> # [])) = 90"
  using truncated_additions [where X = example_ext and pr = "example_pr 7" and since = 10
      and until = 20 and ?fs1.0 = "[\<lparr> cf_Filename = ''pkg/repo/pr.go'', cf_Additions = 37, cf_Deletions = 50 \<rparr>]"
      and f = "\<lparr> cf_Filename = ''docs/CHANGELOG.md'', cf_Additions = 37, cf_Deletions = 40 \<rparr>"
      and ?fs2.0 = "[]"]
  by (simp add: in_window_def example_pr_def summary_row_counts counted_def truncRe_examples)

text \<open>
  C7, as the code has it. \<open>PullSummary\<close> never fails, and for every URL its result holds at
  most one row: the row of the first entry with that URL if that entry passes the date
  test, and no row at all if it does not. Every later entry with the URL is dropped,
  whatever its own dates.
\<close>

theorem deduplication:
  "\<exists>rows. PullSummary X prs since until = Inr rows
     \<and> length (filter (\<lambda>r. ps_URL r = u) rows) \<le> 1
     \<and> filter (\<lambda>r. ps_URL r = u) rows =
         (case find (\<lambda>e. pr_HTMLURL (fst e) = u) prs of
            None \<Rightarrow> []
          | Some e \<Rightarrow>
              if in_window since until (fst e) then [summary_row X (fst e) (snd e)] else [])"
proof -
  have "filter (\<lambda>r. ps_URL r = u) (fst (PullSummary_loop X since until prs ([], {}))) =
         (case find (\<lambda>e. pr_HTMLURL (fst e) = u) prs of
            None \<Rightarrow> []
          | Some e \<Rightarrow>
              if in_window since until (fst e) then [summary_row X (fst e) (snd e)] else [])"
    by (simp add: PullSummary_loop_filter)
  then show ?thesis
    by (auto simp: PullSummary_def split: option.splits)
qed

text \<open>The instance: the same pull request twice, inside the window; one row comes out.\<close>

theorem deduplication_witness:
  "\<exists>rows. PullSummary example_ext
            [(example_pr 7, []), ((example_pr 7)\<lparr>pr_Title := ''again''\<rparr>, [])] 10 20 = Inr rows
     \<and> length (filter (\<lambda>r. ps_URL r = ''https://github.com/o/p/pull/7'') rows) \<le> 1
     \<and> filter (\<lambda>r. ps_URL r = ''https://github.com/o/p/pull/7'') rows =
         [summary_row example_ext (example_pr 7) []]"
  using deduplication [where X = example_ext and since = 10 and until = 20
      and u = "''https://github.com/o/p/pull/7''"
      and prs = "[(example_pr 7, []), ((example_pr 7)\<lparr>pr_Title := ''again''\<rparr>, [])]"]
  by (simp add: in_window_def example_pr_def fmt_d_digits)

text \<open>
  Where the claim as written fails: two entries with one URL, the first merged after
  \<open>until\<close>, the second inside the window. The first marks the URL as seen and is then
  skipped for its date, the second is dropped as a duplicate, and no row is left.
\<close>

theorem deduplication_counterexample:
  "pr_HTMLURL ((example_pr 7)\<lparr>pr_MergedAt := 30\<rparr>) = pr_HTMLURL (example_pr 7)
   \<and> PullSummary example_ext [((example_pr 7)\<lparr>pr_MergedAt := 30\<rparr>, []), (example_pr 7, [])] 10 20
       = Inr []"
  by (simp add: PullSummary_def example_pr_def Let_def)

text \<open>
  C9. \<open>PullSummary\<close> applies the window itself. An entry whose date (the merge time, or the
  close time when the merge time is zero) is after \<open>until\<close> or before \<open>since\<close> adds no row:
  the pass over a list that holds it goes on after it with the rows it had before it, and
  only the URL marked as seen. And every row of a result is the row of an input entry
  whose date is inside the window.
\<close>

theorem window_reapplied:
  assumes "(if pr_MergedAt pr = 0 then pr_ClosedAt pr else pr_MergedAt pr) > until
           \<or> (if pr_MergedAt pr = 0 then pr_ClosedAt pr else pr_MergedAt pr) < since"
    and "PullSummary X prs since until = Inr rows" and "r \<in> set rows"
  shows "PullSummary_loop X since until (xs @ (pr, files) # ys) st =
           (case PullSummary_loop X since until xs st of
              (rows', seen') \<Rightarrow>
                PullSummary_loop X since until ys (rows', insert (pr_HTMLURL pr) seen'))
       \<and> (\<exists>e \<in> set prs. r = summary_row X (fst e) (snd e) \<and> in_window since until (fst e))"
proof
  obtain rows' seen' where xs: "PullSummary_loop X since until xs st = (rows', seen')"
    by (cases "PullSummary_loop X since until xs st")
  have "\<not> in_window since until pr"
    using assms(1) by (auto simp: in_window_def Let_def)
  then show "PullSummary_loop X since until (xs @ (pr, files) # ys) st =
           (case PullSummary_loop X since until xs st of
              (rows', seen') \<Rightarrow>
                PullSummary_loop X since until ys (rows', insert (pr_HTMLURL pr) seen'))"
    by (simp add: PullSummary_loop_append xs PullSummary_loop_step del: PullSummary_loop.simps)
next
  have "r \<in> set (fst (PullSummary_loop X since until prs ([], {})))"
    using assms(2,3) by (simp add: PullSummary_def)
  from PullSummary_loop_rows [OF this]
  show "\<exists>e \<in> set prs. r = summary_row X (fst e) (snd e) \<and> in_window since until (fst e)"
    by simp
qed

text \<open>The instance: a pull request merged after \<open>until\<close> behind one merged inside the window.\<close>

theorem window_reapplied_witness:
  "PullSummary_loop example_ext 10 20
       ([(example_pr 7, [])] @ ((example_pr 8)\<lparr>pr_MergedAt := 30\<rparr>, []) # []) ([], {}) =
     (case PullSummary_loop example_ext 10 20 [(example_pr 7, [])] ([], {}) of
        (rows', seen') \<Rightarrow>
          PullSummary_loop example_ext 10 20 []
            (rows', insert (pr_HTMLURL ((example_pr 8)\<lparr>pr_MergedAt := 30\<rparr>)) seen'))
   \<and> (\<exists>e \<in> set [(example_pr 7, []), ((example_pr 8)\<lparr>pr_MergedAt := 30\<rparr>, [])].
         summary_row example_ext (example_pr 7) [] = summary_row example_ext (fst e) (snd e)
         \<and> in_window 10 20 (fst e))"
  by (rule window_reapplied [where rows = "[summary_row example_ext (example_pr 7) []]"])
     (simp_all add: PullSummary_def example_pr_def Let_def fmt_d_digits)

section \<open>Properties of the filter pipelines\<close>

lemmas example_defs =
  example_remote_def example_pr_def example_issue_def example_ext_def old_pr_def old_issues_def
  fmt_d_digits

lemmas MergedPulls_run =
  MergedPulls_def MergedPulls_opts_def fetchAllPullRequestPages_def pr_pages_loop.simps
  RetryGithubCall_def MergedPulls_body_def PullRequestsGet_def HasSuffix_def Let_def

lemmas issues_run =
  issues_def issues_opts_def fetchAllIssuePages_def issue_pages_loop.simps cursor_setup_def
  cursor_request_def RetryGithubCall_def issues_body_def IssuesGet_def issueDate_def
  HasSuffix_def Let_def

lemma range_loop_stop_at:
  assumes "\<And>w. body p w = (Stop, w)"
  shows "range_loop body (xs @ p # ys) r w = range_loop body xs r w"
proof (induction xs arbitrary: r w)
  case Nil
  show ?case by (simp add: assms)
next
  case (Cons x xs)
  obtain out w' where b: "body x w = (out, w')" by (cases "body x w")
  show ?case by (cases out) (simp_all add: b Cons.IH)
qed

lemma range_loop_inert:
  assumes "\<And>y w. y \<in> set ys \<Longrightarrow> body y w = (Stop, w) \<or> body y w = (Skip, w)"
  shows "range_loop body ys r w = (r, w)"
  using assms
proof (induction ys arbitrary: w)
  case Nil
  show ?case by simp
next
  case (Cons y ys)
  have "body y w = (Stop, w) \<or> body y w = (Skip, w)" using Cons.prems by simp
  moreover have "range_loop body ys r w = (r, w)" using Cons.IH Cons.prems by simp
  ultimately show ?case by auto
qed

lemma range_loop_append_inert:
  assumes "\<And>y w. y \<in> set ys \<Longrightarrow> body y w = (Stop, w) \<or> body y w = (Skip, w)"
  shows "range_loop body (xs @ ys) r w = range_loop body xs r w"
proof (induction xs arbitrary: r w)
  case Nil
  show ?case using range_loop_inert [OF assms] by simp
next
  case (Cons x xs)
  obtain out w' where b: "body x w = (out, w')" by (cases "body x w")
  show ?case by (cases out) (simp_all add: b Cons.IH)
qed

lemma MergedPulls_body_old:
  "pr_UpdatedAt p < since \<Longrightarrow>
     MergedPulls_body X R org project since until mu mb p w = (Stop, w)"
  by (simp add: MergedPulls_body_def)

lemma issues_body_old:
  "is_UpdatedAt i < since \<Longrightarrow>
     issues_body X R org project since until mu state i w =
       (if is_PullRequestLinks i then Skip else Stop, w)"
  by (simp add: issues_body_def)

lemma range_loop_all:
  assumes "\<And>x w y w'. body x w = (Include y, w') \<Longrightarrow> P y"
    and "list_all P r"
  shows "list_all P (fst (range_loop body xs r w))"
  using assms(2)
proof (induction xs arbitrary: r w)
  case Nil
  then show ?case by simp
next
  case (Cons x xs)
  obtain out w' where b: "body x w = (out, w')" by (cases "body x w")
  show ?case
  proof (cases out)
    case Stop
    then show ?thesis using b Cons.prems by simp
  next
    case Skip
    then show ?thesis using b Cons.prems Cons.IH by simp
  next
    case (Include y)
    then have "P y" using assms(1) b by blast
    then show ?thesis using b Include Cons.prems Cons.IH by simp
  qed
qed

lemma MergedPulls_body_Include:
  assumes "MergedPulls_body X R org project since until mu mb pr w = (Include f, w')"
  shows "pr_MergedAt f \<noteq> 0 \<and> since \<le> pr_MergedAt f \<and> pr_MergedAt f \<le> until
       \<and> (mb = {} \<or> pr_BaseRef f \<in> mb)"
  using assms unfolding MergedPulls_body_def Let_def
  by (auto split: if_splits prod.splits)

lemma MergedPulls_result:
  assumes "MergedPulls X R org project since until users branches w = Some (Inr result, w')"
  shows "list_all (\<lambda>f. pr_MergedAt f \<noteq> 0 \<and> since \<le> pr_MergedAt f \<and> pr_MergedAt f \<le> until
       \<and> (branches = [] \<or> pr_BaseRef f \<in> set (map (ToLower (unicode_ToLower X)) branches))) result"
proof -
  let ?P = "\<lambda>f. pr_MergedAt f \<noteq> 0 \<and> since \<le> pr_MergedAt f \<and> pr_MergedAt f \<le> until
       \<and> (branches = [] \<or> pr_BaseRef f \<in> set (map (ToLower (unicode_ToLower X)) branches))"
  let ?body = "MergedPulls_body X R org project since until (set (map (ToLower (unicode_ToLower X)) users))
         (set (map (ToLower (unicode_ToLower X)) branches))"
  have inc: "?P y" if "?body x v = (Include y, v')" for x v y v'
    using MergedPulls_body_Include [OF that] by auto
  have all: "list_all ?P (fst (range_loop ?body xs [] v))" for xs v
    by (rule range_loop_all [where P = ?P, OF inc]) simp_all
  from assms consider "result = []" | xs v where "range_loop ?body xs [] v = (result, w')"
    unfolding MergedPulls_def Let_def
    by (auto split: option.splits sum.splits prod.splits if_splits)
  then show ?thesis
  proof cases
    case 1
    then show ?thesis by simp
  next
    case 2
    then show ?thesis using all [of xs v] by simp
  qed
qed

text \<open>
  C1. Once the pull-request pipeline meets an item last updated before \<open>since\<close>, it
  stops and returns what it had: its pass over a listing that holds such an item is the
  pass over the items before it, in the result and in the state of cache and remote
  alike, and so is the result of \<open>MergedPulls\<close> when that listing is what was fetched. The
  issue pipeline does the same on a listing in descending order of update time (ties
  allowed): there an item that is a pull request is skipped before its age is looked at,
  and every item behind it is itself skipped or stops the pass, so that nothing from the
  old item on is fetched or included.
\<close>

theorem early_exit:
  assumes "pr_UpdatedAt p < since"
    and "is_UpdatedAt i < since"
    and "sorted_wrt (\<lambda>a b. b \<le> a) (map is_UpdatedAt (i # js))"
  shows "MergedPulls_body X R org project since until mu mb p w = (Stop, w)
       \<and> range_loop (MergedPulls_body X R org project since until mu mb) (ps @ p # qs) [] w =
           range_loop (MergedPulls_body X R org project since until mu mb) ps [] w
       \<and> range_loop (issues_body X R org project since until mu state) (is @ i # js) [] w =
           range_loop (issues_body X R org project since until mu state) is [] w
       \<and> (fetchAllPullRequestPages R org project MergedPulls_opts w0 = Some (Inr (ps @ p # qs), w) \<longrightarrow>
            MergedPulls X R org project since until users branches w0 =
              (case range_loop
                      (MergedPulls_body X R org project since until
                         (set (map (ToLower (unicode_ToLower X)) users))
                         (set (map (ToLower (unicode_ToLower X)) branches))) ps [] w of
                 (result, w2) \<Rightarrow> Some (Inr result, w2)))
       \<and> (fetchAllIssuePages R org project (issues_opts state) w0 = Some (Inr (is @ i # js), w) \<longrightarrow>
            issues X R org project since until users state w0 =
              (case range_loop
                      (issues_body X R org project since until
                         (set (map (ToLower (unicode_ToLower X)) users)) state) is [] w of
                 (result, w2) \<Rightarrow> Some (Inr result, w2)))"
proof -
  have pulls: "range_loop (MergedPulls_body X R org project since until a b) (ps @ p # qs) [] w =
           range_loop (MergedPulls_body X R org project since until a b) ps [] w" for a b
    by (rule range_loop_stop_at) (simp add: MergedPulls_body_old assms(1))
  have old: "is_UpdatedAt y < since" if "y \<in> set (i # js)" for y
    using that assms(2,3) by auto
  have iss: "range_loop (issues_body X R org project since until a state) (is @ i # js) [] w =
           range_loop (issues_body X R org project since until a state) is [] w" for a
    by (rule range_loop_append_inert) (simp add: issues_body_old old del: set_simps)
  have "fetchAllPullRequestPages R org project MergedPulls_opts w0 = Some (Inr (ps @ p # qs), w) \<longrightarrow>
            MergedPulls X R org project since until users branches w0 =
              (case range_loop
                      (MergedPulls_body X R org project since until
                         (set (map (ToLower (unicode_ToLower X)) users))
                         (set (map (ToLower (unicode_ToLower X)) branches))) ps [] w of
                 (result, w2) \<Rightarrow> Some (Inr result, w2))"
    by (simp add: MergedPulls_def pulls del: range_loop.simps)
  moreover
  have "fetchAllIssuePages R org project (issues_opts state) w0 = Some (Inr (is @ i # js), w) \<longrightarrow>
            issues X R org project since until users state w0 =
              (case range_loop
                      (issues_body X R org project since until
                         (set (map (ToLower (unicode_ToLower X)) users)) state) is [] w of
                 (result, w2) \<Rightarrow> Some (Inr result, w2))"
    by (simp add: issues_def iss del: range_loop.simps)
  ultimately show ?thesis
    using pulls [of mu mb] iss [of mu] MergedPulls_body_old [OF assms(1)] by simp
qed

text \<open>
  The instance: the example project, whose listings end with old items; in the issue
  listing the first of them is a pull request, which the pass skips instead of stopping
  at it.
\<close>

theorem early_exit_witness:
  "MergedPulls example_ext (example_remote False) ''o'' ''p'' 10 20 [] [] [] =
     (case range_loop (MergedPulls_body example_ext (example_remote False) ''o'' ''p'' 10 20 {} {})
             [example_pr 7, example_pr 8] [] [] of
        (result, w2) \<Rightarrow> Some (Inr result, w2))
   \<and> issues example_ext (example_remote False) ''o'' ''p'' 10 20 [] ''closed'' [] =
     (case range_loop (issues_body example_ext (example_remote False) ''o'' ''p'' 10 20 {} ''closed'')
             [example_issue 1 ''deploy-bot'', example_issue 2 ''alice''] [] [] of
        (result, w2) \<Rightarrow> Some (Inr result, w2))"
proof -
  have pulls: "fetchAllPullRequestPages (example_remote False) ''o'' ''p'' MergedPulls_opts [] =
      Some (Inr ([example_pr 7, example_pr 8] @ old_pr # []), [])"
    by (simp add: MergedPulls_opts_def fetchAllPullRequestPages_def pr_pages_loop.simps
          RetryGithubCall_def example_remote_def)
  have iss: "fetchAllIssuePages (example_remote False) ''o'' ''p'' (issues_opts ''closed'') [] =
      Some (Inr ([example_issue 1 ''deploy-bot'', example_issue 2 ''alice'']
                 @ hd old_issues # tl old_issues), [])"
    by (simp add: issues_opts_def fetchAllIssuePages_def issue_pages_loop.simps cursor_setup_def
          cursor_request_def RetryGithubCall_def example_remote_def old_issues_def)
  have a: "pr_UpdatedAt old_pr < 10" "is_UpdatedAt (hd old_issues) < 10"
    "sorted_wrt (\<lambda>a b. b \<le> a) (map is_UpdatedAt (hd old_issues # tl old_issues))"
    by (simp_all add: old_pr_def old_issues_def example_pr_def example_issue_def)
  note e = early_exit [OF a, where X = example_ext and until = 20 and users = "[]"
      and branches = "[]" and R = "example_remote False" and org = "''o''" and project = "''p''"
      and state = "''closed''" and ?w0.0 = "[]"]
  from e [THEN conjunct2, THEN conjunct2, THEN conjunct2, THEN conjunct1, THEN mp, OF pulls]
    e [THEN conjunct2, THEN conjunct2, THEN conjunct2, THEN conjunct2, THEN mp, OF iss]
  show ?thesis by (simp del: range_loop.simps)
qed

lemma range_loop_acc:
  "range_loop body xs acc w =
     (case range_loop body xs [] w of (rest, v) \<Rightarrow> (acc @ rest, v))"
proof (induction xs arbitrary: acc w)
  case Nil
  show ?case by simp
next
  case (Cons x xs)
  obtain out w' where b: "body x w = (out, w')" by (cases "body x w")
  show ?case
  proof (cases out)
    case Stop
    then show ?thesis by (simp add: b)
  next
    case Skip
    then show ?thesis using Cons.IH [of acc w'] by (simp add: b)
  next
    case (Include y)
    obtain rest v where r: "range_loop body xs [] w' = (rest, v)"
      by (cases "range_loop body xs [] w'")
    show ?thesis
      using Cons.IH [of "acc @ [y]" w'] Cons.IH [of "[y]" w'] by (simp add: b Include r)
  qed
qed

lemma range_loop_reach:
  assumes "\<And>x v. x \<in> set ps \<Longrightarrow> fst (body x v) \<noteq> Stop"
  shows "range_loop body (ps @ ys) acc w =
           (case range_loop body ps acc w of (r, v) \<Rightarrow> range_loop body ys r v)"
  using assms
proof (induction ps arbitrary: acc w)
  case Nil
  show ?case by simp
next
  case (Cons x ps)
  obtain out w' where b: "body x w = (out, w')" by (cases "body x w")
  have ns: "out \<noteq> Stop" using Cons.prems [of x w] b by simp
  have ih: "range_loop body (ps @ ys) a u =
           (case range_loop body ps a u of (r, v) \<Rightarrow> range_loop body ys r v)" for a u
    by (rule Cons.IH) (simp add: Cons.prems)
  show ?case using ns by (cases out) (simp_all add: b ih)
qed

lemma MergedPulls_body_eq:
  assumes "PullRequestsGet R (if pr_MergedAt p = 0 then pr_ClosedAt p else pr_MergedAt p)
             org project (pr_Number p) w = ((full, err), w')"
  shows "MergedPulls_body X R org project since until mu mb p w =
     (if pr_UpdatedAt p < since then (Stop, w)
      else if pr_ClosedAt p \<noteq> 0 \<and> since \<le> pr_ClosedAt p \<and> pr_ClosedAt p \<le> until
              \<and> (mu = {} \<or> ToLower (unicode_ToLower X) (Login (pr_User p)) \<in> mu)
              \<and> \<not> isBot X (pr_User p) \<and> pr_State p = ''closed''
        then (if err = None \<and> (mb = {} \<or> pr_BaseRef full \<in> mb)
                 \<and> pr_Merged full \<and> pr_MergeCommitSHA full \<noteq> []
                 \<and> pr_MergedAt full \<noteq> 0 \<and> since \<le> pr_MergedAt full \<and> pr_MergedAt full \<le> until
              then (Include full, w') else (Skip, w'))
      else (Skip, w))"
  unfolding MergedPulls_body_def Let_def
  by (cases "pr_MergedAt p = 0") (use assms in \<open>auto split: if_splits\<close>)

lemma issues_body_eq:
  assumes "IssuesGet R (is_ClosedAt i) org project (is_Number i) w = ((full, err), w')"
  shows "issues_body X R org project since until mu ''closed'' i w =
     (if is_PullRequestLinks i then (Skip, w)
      else if is_UpdatedAt i < since then (Stop, w)
      else if is_ClosedAt i \<noteq> 0 \<and> since \<le> is_ClosedAt i \<and> is_ClosedAt i \<le> until
              \<and> is_State i = ''closed''
        then (if err = None
                 \<and> (mu = {} \<or> ToLower (unicode_ToLower X) (Login (is_User full)) \<in> mu
                     \<or> (case is_ClosedBy full of
                           None \<Rightarrow> False
                         | Some closer \<Rightarrow>
                             Login closer \<noteq> []
                             \<and> ToLower (unicode_ToLower X) (Login closer) \<in> mu))
              then (Include full, w') else (Skip, w'))
      else (Skip, w))"
  unfolding issues_body_def Let_def issueDate_def
  using assms by (auto split: if_splits)

lemma MergedPulls_body_no_stop:
  "since \<le> pr_UpdatedAt q \<Longrightarrow> fst (MergedPulls_body X R org project since until mu mb q v) \<noteq> Stop"
  unfolding MergedPulls_body_def Let_def by (auto split: if_splits prod.splits)

lemma issues_body_no_stop:
  "is_PullRequestLinks q \<or> since \<le> is_UpdatedAt q \<Longrightarrow>
     fst (issues_body X R org project since until mu state q v) \<noteq> Stop"
  unfolding issues_body_def Let_def by (auto split: if_splits prod.splits)

lemma range_loop_item:
  assumes "\<And>x v. x \<in> set ps \<Longrightarrow> fst (body x v) \<noteq> Stop"
    and "range_loop body ps [] w1 = (r, w)"
  shows "range_loop body (ps @ p # qs) [] w1 =
     (case body p w of
        (Stop, v) \<Rightarrow> (r, v)
      | (Skip, v) \<Rightarrow> (case range_loop body qs [] v of (rest, u) \<Rightarrow> (r @ rest, u))
      | (Include y, v) \<Rightarrow> (case range_loop body qs [] v of (rest, u) \<Rightarrow> (r @ y # rest, u)))"
proof -
  have "range_loop body (ps @ p # qs) [] w1 =
      (case range_loop body ps [] w1 of (a, v) \<Rightarrow> range_loop body (p # qs) a v)"
    using assms(1) by (rule range_loop_reach)
  then have reach: "range_loop body (ps @ p # qs) [] w1 = range_loop body (p # qs) r w"
    by (simp only: assms(2) prod.case)
  obtain out v where b: "body p w = (out, v)" by (cases "body p w")
  show ?thesis
    unfolding reach
    by (cases out)
       (simp_all add: b range_loop_acc [of body qs r] range_loop_acc [of body qs "r @ [y]" for y]
          split: prod.splits)
qed

lemma MergedPulls_at:
  assumes fetch: "fetchAllPullRequestPages R org project MergedPulls_opts w0 = Some (Inr (ps @ p # qs), w1)"
    and fresh: "list_all (\<lambda>q. since \<le> pr_UpdatedAt q) ps"
    and before: "range_loop (MergedPulls_body X R org project since until
                   (set (map (ToLower (unicode_ToLower X)) users))
                   (set (map (ToLower (unicode_ToLower X)) branches))) ps [] w1 = (r, w)"
    and get: "PullRequestsGet R (if pr_MergedAt p = 0 then pr_ClosedAt p else pr_MergedAt p)
             org project (pr_Number p) w = ((full, err), w')"
  shows "MergedPulls X R org project since until users branches w0 =
     (if pr_UpdatedAt p < since then Some (Inr r, w)
      else if pr_ClosedAt p \<noteq> 0 \<and> since \<le> pr_ClosedAt p \<and> pr_ClosedAt p \<le> until
              \<and> (users = [] \<or> ToLower (unicode_ToLower X) (Login (pr_User p))
                                  \<in> set (map (ToLower (unicode_ToLower X)) users))
              \<and> \<not> isBot X (pr_User p) \<and> pr_State p = ''closed''
        then (case range_loop (MergedPulls_body X R org project since until
                   (set (map (ToLower (unicode_ToLower X)) users))
                   (set (map (ToLower (unicode_ToLower X)) branches))) qs [] w' of
                (rest, w2) \<Rightarrow>
                  Some (Inr (if err = None
                                \<and> (branches = [] \<or> pr_BaseRef full
                                                     \<in> set (map (ToLower (unicode_ToLower X)) branches))
                                \<and> pr_Merged full \<and> pr_MergeCommitSHA full \<noteq> []
                                \<and> pr_MergedAt full \<noteq> 0 \<and> since \<le> pr_MergedAt full
                                \<and> pr_MergedAt full \<le> until
                             then r @ full # rest else r @ rest), w2))
      else (case range_loop (MergedPulls_body X R org project since until
                   (set (map (ToLower (unicode_ToLower X)) users))
                   (set (map (ToLower (unicode_ToLower X)) branches))) qs [] w of
              (rest, w2) \<Rightarrow> Some (Inr (r @ rest), w2)))"
proof -
  let ?body = "MergedPulls_body X R org project since until
                   (set (map (ToLower (unicode_ToLower X)) users))
                   (set (map (ToLower (unicode_ToLower X)) branches))"
  have run: "MergedPulls X R org project since until users branches w0 =
      (case range_loop ?body (ps @ p # qs) [] w1 of (result, w2) \<Rightarrow> Some (Inr result, w2))"
    by (simp add: MergedPulls_def fetch del: range_loop.simps)
  have ns: "fst (?body x v) \<noteq> Stop" if "x \<in> set ps" for x v
    using that fresh by (intro MergedPulls_body_no_stop) (simp add: list_all_iff)
  have item: "range_loop ?body (ps @ p # qs) [] w1 =
     (case ?body p w of
        (Stop, v) \<Rightarrow> (r, v)
      | (Skip, v) \<Rightarrow> (case range_loop ?body qs [] v of (rest, u) \<Rightarrow> (r @ rest, u))
      | (Include y, v) \<Rightarrow> (case range_loop ?body qs [] v of (rest, u) \<Rightarrow> (r @ y # rest, u)))"
    using ns before by (rule range_loop_item)
  show ?thesis
    unfolding run item MergedPulls_body_eq [OF get]
    by (auto split: prod.splits)
qed

lemma issues_at:
  assumes fetch: "fetchAllIssuePages R org project (issues_opts ''closed'') w0 = Some (Inr (ps @ i # qs), w1)"
    and fresh: "list_all (\<lambda>q. is_PullRequestLinks q \<or> since \<le> is_UpdatedAt q) ps"
    and before: "range_loop (issues_body X R org project since until
                   (set (map (ToLower (unicode_ToLower X)) users)) ''closed'') ps [] w1 = (r, w)"
    and get: "IssuesGet R (is_ClosedAt i) org project (is_Number i) w = ((full, err), w')"
  shows "issues X R org project since until users ''closed'' w0 =
     (if is_PullRequestLinks i
        then (case range_loop (issues_body X R org project since until
                   (set (map (ToLower (unicode_ToLower X)) users)) ''closed'') qs [] w of
                (rest, w2) \<Rightarrow> Some (Inr (r @ rest), w2))
      else if is_UpdatedAt i < since then Some (Inr r, w)
      else if is_ClosedAt i \<noteq> 0 \<and> since \<le> is_ClosedAt i \<and> is_ClosedAt i \<le> until
              \<and> is_State i = ''closed''
        then (case range_loop (issues_body X R org project since until
                   (set (map (ToLower (unicode_ToLower X)) users)) ''closed'') qs [] w' of
                (rest, w2) \<Rightarrow>
                  Some (Inr (if err = None
                                \<and> (users = []
                                    \<or> ToLower (unicode_ToLower X) (Login (is_User full))
                                         \<in> set (map (ToLower (unicode_ToLower X)) users)
                                    \<or> (case is_ClosedBy full of
                                          None \<Rightarrow> False
                                        | Some closer \<Rightarrow>
                                            Login closer \<noteq> []
                                            \<and> ToLower (unicode_ToLower X) (Login closer)
                                                 \<in> set (map (ToLower (unicode_ToLower X)) users)))
                             then r @ full # rest else r @ rest), w2))
      else (case range_loop (issues_body X R org project since until
                   (set (map (ToLower (unicode_ToLower X)) users)) ''closed'') qs [] w of
              (rest, w2) \<Rightarrow> Some (Inr (r @ rest), w2)))"
proof -
  let ?body = "issues_body X R org project since until
                   (set (map (ToLower (unicode_ToLower X)) users)) ''closed''"
  have run: "issues X R org project since until users ''closed'' w0 =
      (case range_loop ?body (ps @ i # qs) [] w1 of (result, w2) \<Rightarrow> Some (Inr result, w2))"
    by (simp add: issues_def fetch del: range_loop.simps)
  have ns: "fst (?body x v) \<noteq> Stop" if "x \<in> set ps" for x v
    using that fresh by (intro issues_body_no_stop) (simp add: list_all_iff)
  have item: "range_loop ?body (ps @ i # qs) [] w1 =
     (case ?body i w of
        (Stop, v) \<Rightarrow> (r, v)
      | (Skip, v) \<Rightarrow> (case range_loop ?body qs [] v of (rest, u) \<Rightarrow> (r @ rest, u))
      | (Include y, v) \<Rightarrow> (case range_loop ?body qs [] v of (rest, u) \<Rightarrow> (r @ y # rest, u)))"
    using ns before by (rule range_loop_item)
  show ?thesis
    unfolding run item issues_body_eq [OF get]
    by (auto split: prod.splits)
qed

lemma ClosedIssues_of_issues:
  "issues X R org project since until users ''closed'' w0 = Some (Inr res, w2) \<Longrightarrow>
     ClosedIssues X R org project since until users w0 =
       Some (Inr (map (issue_summary X project) res), w2)"
  by (simp add: ClosedIssues_def)

text \<open>
  C2, as the code has it. Both pipelines decide on the timestamps of the list item, and
  return the detail record that is fetched for it.

  The loop body of \<open>MergedPulls\<close> includes a pull request exactly when the list item is
  not older than \<open>since\<close>, its close time is set and lies in [since, until] with both
  bounds included, the user, bot and state filters pass, the detail is fetched without
  error, the branch and merged filters pass on the detail, and the merge time of the
  detail is set and lies in [since, until]. The loop body of \<open>issues\<close> for the state
  closed includes an issue exactly when the list item is not a pull request and not older
  than \<open>since\<close>, its close time is set and lies in [since, until], its state is closed,
  the detail is fetched without error and the user filter passes on the detail. Every
  pull request that \<open>MergedPulls\<close> returns has a merge time that is set and inside the
  window.

  For the pipelines as a whole: when the listing that was fetched is \<open>ps @ p # qs\<close> and
  no item of \<open>ps\<close> ends the pass, the result of \<open>MergedPulls\<close> is what the pass had after
  \<open>ps\<close>, then the detail of \<open>p\<close> if and only if these conditions hold for \<open>p\<close>, then what
  the pass over \<open>qs\<close> adds; the same holds of \<open>issues\<close>, and \<open>ClosedIssues\<close> returns one
  row for each issue that \<open>issues\<close> returns, in that order. So a list item with a zero
  close time is never included. The close time of the issue detail is not looked at.
\<close>

theorem terminal_window:
  "(MergedPulls_body X R org project since until mu mb pr w = (Include full, w') \<longleftrightarrow>
      since \<le> pr_UpdatedAt pr
      \<and> pr_ClosedAt pr \<noteq> 0 \<and> since \<le> pr_ClosedAt pr \<and> pr_ClosedAt pr \<le> until
      \<and> (mu = {} \<or> ToLower (unicode_ToLower X) (Login (pr_User pr)) \<in> mu)
      \<and> \<not> isBot X (pr_User pr) \<and> pr_State pr = ''closed''
      \<and> PullRequestsGet R (if pr_MergedAt pr = 0 then pr_ClosedAt pr else pr_MergedAt pr)
            org project (pr_Number pr) w = ((full, None), w')
      \<and> (mb = {} \<or> pr_BaseRef full \<in> mb)
      \<and> pr_Merged full \<and> pr_MergeCommitSHA full \<noteq> []
      \<and> pr_MergedAt full \<noteq> 0 \<and> since \<le> pr_MergedAt full \<and> pr_MergedAt full \<le> until)
   \<and> (issues_body X R org project since until mu ''closed'' i w = (Include ifull, w'') \<longleftrightarrow>
      \<not> is_PullRequestLinks i \<and> since \<le> is_UpdatedAt i
      \<and> is_ClosedAt i \<noteq> 0 \<and> since \<le> is_ClosedAt i \<and> is_ClosedAt i \<le> until
      \<and> is_State i = ''closed''
      \<and> IssuesGet R (is_ClosedAt i) org project (is_Number i) w = ((ifull, None), w'')
      \<and> (mu = {} \<or> ToLower (unicode_ToLower X) (Login (is_User ifull)) \<in> mu
          \<or> (case is_ClosedBy ifull of None \<Rightarrow> False
              | Some closer \<Rightarrow> Login closer \<noteq> [] \<and> ToLower (unicode_ToLower X) (Login closer) \<in> mu)))
   \<and> (MergedPulls X R org project since until users branches w0 = Some (Inr result, w1) \<longrightarrow>
        list_all (\<lambda>f. pr_MergedAt f \<noteq> 0 \<and> since \<le> pr_MergedAt f \<and> pr_MergedAt f \<le> until) result)
   \<and> (fetchAllPullRequestPages R org project MergedPulls_opts a0 = Some (Inr (ps @ p # qs), a1)
        \<and> list_all (\<lambda>q. since \<le> pr_UpdatedAt q) ps
        \<and> range_loop (MergedPulls_body X R org project since until
                       (set (map (ToLower (unicode_ToLower X)) users))
                       (set (map (ToLower (unicode_ToLower X)) branches))) ps [] a1 = (r, a)
        \<and> PullRequestsGet R (if pr_MergedAt p = 0 then pr_ClosedAt p else pr_MergedAt p)
              org project (pr_Number p) a = ((fp, ep), a')
      \<longrightarrow>
        MergedPulls X R org project since until users branches a0 =
          (if pr_UpdatedAt p < since then Some (Inr r, a)
           else if pr_ClosedAt p \<noteq> 0 \<and> since \<le> pr_ClosedAt p \<and> pr_ClosedAt p \<le> until
                   \<and> (users = [] \<or> ToLower (unicode_ToLower X) (Login (pr_User p))
                                       \<in> set (map (ToLower (unicode_ToLower X)) users))
                   \<and> \<not> isBot X (pr_User p) \<and> pr_State p = ''closed''
             then (case range_loop (MergedPulls_body X R org project since until
                       (set (map (ToLower (unicode_ToLower X)) users))
                       (set (map (ToLower (unicode_ToLower X)) branches))) qs [] a' of
                     (rest, a2) \<Rightarrow>
                       Some (Inr (if ep = None
                                     \<and> (branches = []
                                         \<or> pr_BaseRef fp
                                              \<in> set (map (ToLower (unicode_ToLower X)) branches))
                                     \<and> pr_Merged fp \<and> pr_MergeCommitSHA fp \<noteq> []
                                     \<and> pr_MergedAt fp \<noteq> 0 \<and> since \<le> pr_MergedAt fp
                                     \<and> pr_MergedAt fp \<le> until
                                  then r @ fp # rest else r @ rest), a2))
           else (case range_loop (MergedPulls_body X R org project since until
                       (set (map (ToLower (unicode_ToLower X)) users))
                       (set (map (ToLower (unicode_ToLower X)) branches))) qs [] a of
                   (rest, a2) \<Rightarrow> Some (Inr (r @ rest), a2))))
   \<and> (fetchAllIssuePages R org project (issues_opts ''closed'') b0 = Some (Inr (xs @ x # ys), b1)
        \<and> list_all (\<lambda>q. is_PullRequestLinks q \<or> since \<le> is_UpdatedAt q) xs
        \<and> range_loop (issues_body X R org project since until
                       (set (map (ToLower (unicode_ToLower X)) users)) ''closed'') xs [] b1 = (rx, b)
        \<and> IssuesGet R (is_ClosedAt x) org project (is_Number x) b = ((fx, ex), b')
      \<longrightarrow>
        issues X R org project since until users ''closed'' b0 =
          (if is_PullRequestLinks x
             then (case range_loop (issues_body X R org project since until
                       (set (map (ToLower (unicode_ToLower X)) users)) ''closed'') ys [] b of
                     (rest, b2) \<Rightarrow> Some (Inr (rx @ rest), b2))
           else if is_UpdatedAt x < since then Some (Inr rx, b)
           else if is_ClosedAt x \<noteq> 0 \<and> since \<le> is_ClosedAt x \<and> is_ClosedAt x \<le> until
                   \<and> is_State x = ''closed''
             then (case range_loop (issues_body X R org project since until
                       (set (map (ToLower (unicode_ToLower X)) users)) ''closed'') ys [] b' of
                     (rest, b2) \<Rightarrow>
                       Some (Inr (if ex = None
                                     \<and> (users = []
                                         \<or> ToLower (unicode_ToLower X) (Login (is_User fx))
                                              \<in> set (map (ToLower (unicode_ToLower X)) users)
                                         \<or> (case is_ClosedBy fx of
                                               None \<Rightarrow> False
                                             | Some closer \<Rightarrow>
                                                 Login closer \<noteq> []
                                                 \<and> ToLower (unicode_ToLower X) (Login closer)
                                                      \<in> set (map (ToLower (unicode_ToLower X)) users)))
                                  then rx @ fx # rest else rx @ rest), b2))
           else (case range_loop (issues_body X R org project since until
                       (set (map (ToLower (unicode_ToLower X)) users)) ''closed'') ys [] b of
                   (rest, b2) \<Rightarrow> Some (Inr (rx @ rest), b2))))
   \<and> (issues X R org project since until users ''closed'' c0 = Some (Inr res, c2) \<longrightarrow>
        ClosedIssues X R org project since until users c0 =
          Some (Inr (map (issue_summary X project) res), c2))"
proof (intro conjI)
  obtain f e v where g: "PullRequestsGet R (if pr_MergedAt pr = 0 then pr_ClosedAt pr else pr_MergedAt pr)
            org project (pr_Number pr) w = ((f, e), v)" 
    by (metis surj_pair)
  show "MergedPulls_body X R org project since until mu mb pr w = (Include full, w') \<longleftrightarrow>
      since \<le> pr_UpdatedAt pr
      \<and> pr_ClosedAt pr \<noteq> 0 \<and> since \<le> pr_ClosedAt pr \<and> pr_ClosedAt pr \<le> until
      \<and> (mu = {} \<or> ToLower (unicode_ToLower X) (Login (pr_User pr)) \<in> mu)
      \<and> \<not> isBot X (pr_User pr) \<and> pr_State pr = ''closed''
      \<and> PullRequestsGet R (if pr_MergedAt pr = 0 then pr_ClosedAt pr else pr_MergedAt pr)
            org project (pr_Number pr) w = ((full, None), w')
      \<and> (mb = {} \<or> pr_BaseRef full \<in> mb)
      \<and> pr_Merged full \<and> pr_MergeCommitSHA full \<noteq> []
      \<and> pr_MergedAt full \<noteq> 0 \<and> since \<le> pr_MergedAt full \<and> pr_MergedAt full \<le> until"
    unfolding MergedPulls_body_def Let_def
    by (cases "pr_MergedAt pr = 0") (use g in \<open>auto split: if_splits\<close>)
next
  obtain f e v where g: "IssuesGet R (is_ClosedAt i) org project (is_Number i) w = ((f, e), v)" 
    by (metis surj_pair)
  show "issues_body X R org project since until mu ''closed'' i w = (Include ifull, w'') \<longleftrightarrow>
      \<not> is_PullRequestLinks i \<and> since \<le> is_UpdatedAt i
      \<and> is_ClosedAt i \<noteq> 0 \<and> since \<le> is_ClosedAt i \<and> is_ClosedAt i \<le> until
      \<and> is_State i = ''closed''
      \<and> IssuesGet R (is_ClosedAt i) org project (is_Number i) w = ((ifull, None), w'')
      \<and> (mu = {} \<or> ToLower (unicode_ToLower X) (Login (is_User ifull)) \<in> mu
          \<or> (case is_ClosedBy ifull of None \<Rightarrow> False
              | Some closer \<Rightarrow> Login closer \<noteq> [] \<and> ToLower (unicode_ToLower X) (Login closer) \<in> mu))"
    unfolding issues_body_def Let_def issueDate_def
    using g by (auto split: if_splits)
next
  show "MergedPulls X R org project since until users branches w0 = Some (Inr result, w1) \<longrightarrow>
        list_all (\<lambda>f. pr_MergedAt f \<noteq> 0 \<and> since \<le> pr_MergedAt f \<and> pr_MergedAt f \<le> until) result"
  proof
    assume "MergedPulls X R org project since until users branches w0 = Some (Inr result, w1)"
    from MergedPulls_result [OF this] show
      "list_all (\<lambda>f. pr_MergedAt f \<noteq> 0 \<and> since \<le> pr_MergedAt f \<and> pr_MergedAt f \<le> until) result"
      by (simp add: list_all_iff)
  qed
next
  show "(fetchAllPullRequestPages R org project MergedPulls_opts a0 = Some (Inr (ps @ p # qs), a1)
        \<and> list_all (\<lambda>q. since \<le> pr_UpdatedAt q) ps
        \<and> range_loop (MergedPulls_body X R org project since until
                       (set (map (ToLower (unicode_ToLower X)) users))
                       (set (map (ToLower (unicode_ToLower X)) branches))) ps [] a1 = (r, a)
        \<and> PullRequestsGet R (if pr_MergedAt p = 0 then pr_ClosedAt p else pr_MergedAt p)
              org project (pr_Number p) a = ((fp, ep), a')
      \<longrightarrow>
        MergedPulls X R org project since until users branches a0 =
          (if pr_UpdatedAt p < since then Some (Inr r, a)
           else if pr_ClosedAt p \<noteq> 0 \<and> since \<le> pr_ClosedAt p \<and> pr_ClosedAt p \<le> until
                   \<and> (users = [] \<or> ToLower (unicode_ToLower X) (Login (pr_User p))
                                       \<in> set (map (ToLower (unicode_ToLower X)) users))
                   \<and> \<not> isBot X (pr_User p) \<and> pr_State p = ''closed''
             then (case range_loop (MergedPulls_body X R org project since until
                       (set (map (ToLower (unicode_ToLower X)) users))
                       (set (map (ToLower (unicode_ToLower X)) branches))) qs [] a' of
                     (rest, a2) \<Rightarrow>
                       Some (Inr (if ep = None
                                     \<and> (branches = []
                                         \<or> pr_BaseRef fp
                                              \<in> set (map (ToLower (unicode_ToLower X)) branches))
                                     \<and> pr_Merged fp \<and> pr_MergeCommitSHA fp \<noteq> []
                                     \<and> pr_MergedAt fp \<noteq> 0 \<and> since \<le> pr_MergedAt fp
                                     \<and> pr_MergedAt fp \<le> until
                                  then r @ fp # rest else r @ rest), a2))
           else (case range_loop (MergedPulls_body X R org project since until
                       (set (map (ToLower (unicode_ToLower X)) users))
                       (set (map (ToLower (unicode_ToLower X)) branches))) qs [] a of
                   (rest, a2) \<Rightarrow> Some (Inr (r @ rest), a2))))"
    by (intro impI, elim conjE, rule MergedPulls_at, assumption+)
next
  show "(fetchAllIssuePages R org project (issues_opts ''closed'') b0 = Some (Inr (xs @ x # ys), b1)
        \<and> list_all (\<lambda>q. is_PullRequestLinks q \<or> since \<le> is_UpdatedAt q) xs
        \<and> range_loop (issues_body X R org project since until
                       (set (map (ToLower (unicode_ToLower X)) users)) ''closed'') xs [] b1 = (rx, b)
        \<and> IssuesGet R (is_ClosedAt x) org project (is_Number x) b = ((fx, ex), b')
      \<longrightarrow>
        issues X R org project since until users ''closed'' b0 =
          (if is_PullRequestLinks x
             then (case range_loop (issues_body X R org project since until
                       (set (map (ToLower (unicode_ToLower X)) users)) ''closed'') ys [] b of
                     (rest, b2) \<Rightarrow> Some (Inr (rx @ rest), b2))
           else if is_UpdatedAt x < since then Some (Inr rx, b)
           else if is_ClosedAt x \<noteq> 0 \<and> since \<le> is_ClosedAt x \<and> is_ClosedAt x \<le> until
                   \<and> is_State x = ''closed''
             then (case range_loop (issues_body X R org project since until
                       (set (map (ToLower (unicode_ToLower X)) users)) ''closed'') ys [] b' of
                     (rest, b2) \<Rightarrow>
                       Some (Inr (if ex = None
                                     \<and> (users = []
                                         \<or> ToLower (unicode_ToLower X) (Login (is_User fx))
                                              \<in> set (map (ToLower (unicode_ToLower X)) users)
                                         \<or> (case is_ClosedBy fx of
                                               None \<Rightarrow> False
                                             | Some closer \<Rightarrow>
                                                 Login closer \<noteq> []
                                                 \<and> ToLower (unicode_ToLower X) (Login closer)
                                                      \<in> set (map (ToLower (unicode_ToLower X)) users)))
                                  then rx @ fx # rest else rx @ rest), b2))
           else (case range_loop (issues_body X R org project since until
                       (set (map (ToLower (unicode_ToLower X)) users)) ''closed'') ys [] b of
                   (rest, b2) \<Rightarrow> Some (Inr (rx @ rest), b2))))"
    by (intro impI, elim conjE, rule issues_at, assumption+)
next
  show "(issues X R org project since until users ''closed'' c0 = Some (Inr res, c2) \<longrightarrow>
        ClosedIssues X R org project since until users c0 =
          Some (Inr (map (issue_summary X project) res), c2))"
    by (intro impI, rule ClosedIssues_of_issues, assumption)
qed

text \<open>
  The instance: the example project with the window [10, 15]. The pull requests are
  closed at 15, on the bound, and merged at 14; the issues are closed at 15. Both
  pipelines return the two items in front of the old ones.
\<close>

theorem terminal_window_witness:
  "MergedPulls_body example_ext (example_remote False) ''o'' ''p'' 10 15 {} {} (example_pr 7) [] =
     (Include (example_pr 7),
      [(''pr-o-p-7'', \<lparr> GHPullRequest = example_pr 7, GHIssue = nil_Issue \<rparr>)])
   \<and> 10 \<le> pr_ClosedAt (example_pr 7) \<and> pr_ClosedAt (example_pr 7) \<le> 15
   \<and> 10 \<le> pr_MergedAt (example_pr 7) \<and> pr_MergedAt (example_pr 7) \<le> 15
   \<and> list_all (\<lambda>f. pr_MergedAt f \<noteq> 0 \<and> 10 \<le> pr_MergedAt f \<and> pr_MergedAt f \<le> 15)
        [example_pr 7, example_pr 8]
   \<and> MergedPulls example_ext (example_remote False) ''o'' ''p'' 10 15 [] [] [] =
       Some (Inr ([example_pr 7] @ example_pr 8 # []),
             [(''pr-o-p-8'', \<lparr> GHPullRequest = example_pr 8, GHIssue = nil_Issue \<rparr>),
              (''pr-o-p-7'', \<lparr> GHPullRequest = example_pr 7, GHIssue = nil_Issue \<rparr>)])
   \<and> issues example_ext (example_remote False) ''o'' ''p'' 10 15 [] ''closed'' [] =
       Some (Inr ([example_issue 1 ''deploy-bot''] @ example_issue 2 ''alice'' # []),
             [(''issue-o-p-2'', \<lparr> GHPullRequest = nil_PullRequest, GHIssue = example_issue 2 ''alice'' \<rparr>),
              (''issue-o-p-1'', \<lparr> GHPullRequest = nil_PullRequest,
                                  GHIssue = example_issue 1 ''deploy-bot'' \<rparr>)])
   \<and> ClosedIssues example_ext (example_remote False) ''o'' ''p'' 10 15 [] [] =
       Some (Inr (map (issue_summary example_ext ''p'')
                    ([example_issue 1 ''deploy-bot''] @ example_issue 2 ''alice'' # [])),
             [(''issue-o-p-2'', \<lparr> GHPullRequest = nil_PullRequest, GHIssue = example_issue 2 ''alice'' \<rparr>),
              (''issue-o-p-1'', \<lparr> GHPullRequest = nil_PullRequest,
                                  GHIssue = example_issue 1 ''deploy-bot'' \<rparr>)])"
proof -
  note tw = terminal_window [where X = example_ext and R = "example_remote False" and org = "''o''"
      and project = "''p''" and since = 10 and until = 15 and users = "[]" and branches = "[]"]
  have run: "MergedPulls_body example_ext (example_remote False) ''o'' ''p'' 10 15 {} {}
       (example_pr 7) [] =
     (Include (example_pr 7),
      [(''pr-o-p-7'', \<lparr> GHPullRequest = example_pr 7, GHIssue = nil_Issue \<rparr>)])"
    by (simp add: MergedPulls_body_def PullRequestsGet_def RetryGithubCall_def HasSuffix_def
          Let_def example_defs)
  have p1: "fetchAllPullRequestPages (example_remote False) ''o'' ''p'' MergedPulls_opts [] =
      Some (Inr ([example_pr 7] @ example_pr 8 # [old_pr]), [])"
    by (simp add: MergedPulls_opts_def fetchAllPullRequestPages_def pr_pages_loop.simps
          RetryGithubCall_def example_remote_def)
  have p2: "list_all (\<lambda>q. 10 \<le> pr_UpdatedAt q) [example_pr 7]"
    by (simp add: example_pr_def)
  have p3: "range_loop (MergedPulls_body example_ext (example_remote False) ''o'' ''p'' 10 15
               (set (map (ToLower (unicode_ToLower example_ext)) []))
               (set (map (ToLower (unicode_ToLower example_ext)) []))) [example_pr 7] [] [] =
      ([example_pr 7], [(''pr-o-p-7'', \<lparr> GHPullRequest = example_pr 7, GHIssue = nil_Issue \<rparr>)])"
    by (simp add: run)
  have p4: "PullRequestsGet (example_remote False)
       (if pr_MergedAt (example_pr 8) = 0 then pr_ClosedAt (example_pr 8) else pr_MergedAt (example_pr 8))
       ''o'' ''p'' (pr_Number (example_pr 8))
       [(''pr-o-p-7'', \<lparr> GHPullRequest = example_pr 7, GHIssue = nil_Issue \<rparr>)] =
     ((example_pr 8, None),
      [(''pr-o-p-8'', \<lparr> GHPullRequest = example_pr 8, GHIssue = nil_Issue \<rparr>),
       (''pr-o-p-7'', \<lparr> GHPullRequest = example_pr 7, GHIssue = nil_Issue \<rparr>)])"
    by (simp add: PullRequestsGet_def RetryGithubCall_def Let_def example_defs)
  have pulls: "MergedPulls example_ext (example_remote False) ''o'' ''p'' 10 15 [] [] [] =
       Some (Inr ([example_pr 7] @ example_pr 8 # []),
             [(''pr-o-p-8'', \<lparr> GHPullRequest = example_pr 8, GHIssue = nil_Issue \<rparr>),
              (''pr-o-p-7'', \<lparr> GHPullRequest = example_pr 7, GHIssue = nil_Issue \<rparr>)])"
    using tw [THEN conjunct2, THEN conjunct2, THEN conjunct2, THEN conjunct1, THEN mp,
              OF conjI [OF p1 conjI [OF p2 conjI [OF p3 p4]]]]
    by (simp add: MergedPulls_body_def HasSuffix_def Let_def example_defs)
  have i1: "fetchAllIssuePages (example_remote False) ''o'' ''p'' (issues_opts ''closed'') [] =
      Some (Inr ([example_issue 1 ''deploy-bot''] @ example_issue 2 ''alice'' # old_issues), [])"
    by (simp add: issues_opts_def fetchAllIssuePages_def issue_pages_loop.simps cursor_setup_def
          cursor_request_def RetryGithubCall_def example_remote_def)
  have i2: "list_all (\<lambda>q. is_PullRequestLinks q \<or> 10 \<le> is_UpdatedAt q) [example_issue 1 ''deploy-bot'']"
    by (simp add: example_issue_def)
  have i3: "range_loop (issues_body example_ext (example_remote False) ''o'' ''p'' 10 15
               (set (map (ToLower (unicode_ToLower example_ext)) [])) ''closed'')
               [example_issue 1 ''deploy-bot''] [] [] =
      ([example_issue 1 ''deploy-bot''],
       [(''issue-o-p-1'', \<lparr> GHPullRequest = nil_PullRequest, GHIssue = example_issue 1 ''deploy-bot'' \<rparr>)])"
    by (simp add: issues_body_def IssuesGet_def issueDate_def RetryGithubCall_def Let_def example_defs)
  have i4: "IssuesGet (example_remote False) (is_ClosedAt (example_issue 2 ''alice'')) ''o'' ''p''
       (is_Number (example_issue 2 ''alice''))
       [(''issue-o-p-1'', \<lparr> GHPullRequest = nil_PullRequest, GHIssue = example_issue 1 ''deploy-bot'' \<rparr>)] =
     ((example_issue 2 ''alice'', None),
      [(''issue-o-p-2'', \<lparr> GHPullRequest = nil_PullRequest, GHIssue = example_issue 2 ''alice'' \<rparr>),
       (''issue-o-p-1'', \<lparr> GHPullRequest = nil_PullRequest, GHIssue = example_issue 1 ''deploy-bot'' \<rparr>)])"
    by (simp add: IssuesGet_def RetryGithubCall_def Let_def example_defs)
  have iss: "issues example_ext (example_remote False) ''o'' ''p'' 10 15 [] ''closed'' [] =
       Some (Inr ([example_issue 1 ''deploy-bot''] @ example_issue 2 ''alice'' # []),
             [(''issue-o-p-2'', \<lparr> GHPullRequest = nil_PullRequest, GHIssue = example_issue 2 ''alice'' \<rparr>),
              (''issue-o-p-1'', \<lparr> GHPullRequest = nil_PullRequest,
                                  GHIssue = example_issue 1 ''deploy-bot'' \<rparr>)])"
    using tw [THEN conjunct2, THEN conjunct2, THEN conjunct2, THEN conjunct2, THEN conjunct1, THEN mp,
              OF conjI [OF i1 conjI [OF i2 conjI [OF i3 i4]]]]
    by (simp add: issues_body_def Let_def example_defs)
  from tw [THEN conjunct1, THEN iffD1, OF run]
    tw [THEN conjunct2, THEN conjunct2, THEN conjunct1, THEN mp, OF pulls]
    tw [THEN conjunct2, THEN conjunct2, THEN conjunct2, THEN conjunct2, THEN conjunct2, THEN mp, OF iss]
    run pulls iss
  show ?thesis by simp
qed

text \<open>
  Where the claim as written fails: the listing gives issue 2 the close time 15, inside
  the window, and the cache answers with a record of it that has no close time.
  \<open>issues\<close> returns that record, an issue in the state closed with a zero close time,
  and \<open>ClosedIssues\<close> makes a row of it.
\<close>

theorem terminal_window_counterexample:
  "map_option fst
     (issues example_ext (example_remote False) ''o'' ''p'' 10 20 [] ''closed'' stale_cache) =
     Some (Inr [example_issue 1 ''deploy-bot'', stale_issue])
   \<and> map_option fst
       (ClosedIssues example_ext (example_remote False) ''o'' ''p'' 10 20 [] stale_cache) =
     Some (Inr [issue_summary example_ext ''p'' (example_issue 1 ''deploy-bot''),
                issue_summary example_ext ''p'' stale_issue])
   \<and> is_State stale_issue = ''closed'' \<and> is_ClosedAt stale_issue = 0"
  by (simp add: ClosedIssues_def issues_run example_defs stale_cache_def stale_issue_def)

lemma PullRequestsGet_write_failure:
  assumes "cache_Get R (''pr-'' @ org @ ''-'' @ project @ ''-'' @ fmt_d num) t w = (None, w1)"
    and "retry_PullRequests_Get R org project num w1 = (Inr (RawPullRequest pr, resp), w2)"
    and "cache_Set R (''pr-'' @ org @ ''-'' @ project @ ''-'' @ fmt_d num)
           \<lparr> GHPullRequest = pr, GHIssue = nil_Issue \<rparr> w2 = (Some e, w3)"
  shows "PullRequestsGet R t org project num w = ((pr, Some e), w3)"
  using assms by (simp add: PullRequestsGet_def RetryGithubCall_def)

text \<open>
  C3, as the code has it. When the cache has no entry, the detail call succeeds and the
  write to the cache fails, \<open>PullRequestsGet\<close> returns the fetched pull request together
  with the error of the write. \<open>MergedPulls\<close> takes any error of the helper as a failed
  fetch: the item is skipped, although it passed every filter of the list level, and the
  pass goes on with the next item.
\<close>

theorem cache_write_failure:
  assumes "cache_Get R (''pr-'' @ org @ ''-'' @ project @ ''-'' @ fmt_d (pr_Number p))
             (if pr_MergedAt p = 0 then pr_ClosedAt p else pr_MergedAt p) w = (None, w1)"
    and "retry_PullRequests_Get R org project (pr_Number p) w1 = (Inr (RawPullRequest pr, resp), w2)"
    and "cache_Set R (''pr-'' @ org @ ''-'' @ project @ ''-'' @ fmt_d (pr_Number p))
           \<lparr> GHPullRequest = pr, GHIssue = nil_Issue \<rparr> w2 = (Some e, w3)"
    and "since \<le> pr_UpdatedAt p" and "pr_ClosedAt p \<noteq> 0"
    and "since \<le> pr_ClosedAt p" and "pr_ClosedAt p \<le> until"
    and "mu = {} \<or> ToLower (unicode_ToLower X) (Login (pr_User p)) \<in> mu"
    and "\<not> isBot X (pr_User p)" and "pr_State p = ''closed''"
  shows "PullRequestsGet R (if pr_MergedAt p = 0 then pr_ClosedAt p else pr_MergedAt p)
           org project (pr_Number p) w = ((pr, Some e), w3)
       \<and> MergedPulls_body X R org project since until mu mb p w = (Skip, w3)"
proof -
  have g: "PullRequestsGet R (if pr_MergedAt p = 0 then pr_ClosedAt p else pr_MergedAt p)
           org project (pr_Number p) w = ((pr, Some e), w3)"
    by (rule PullRequestsGet_write_failure [OF assms(1-3)])
  have "MergedPulls_body X R org project since until mu mb p w = (Skip, w3)"
    unfolding MergedPulls_body_def Let_def
    using assms(4-10) by (cases "pr_MergedAt p = 0") (use g in \<open>auto split: if_splits\<close>)
  with g show ?thesis by simp
qed

text \<open>The instance: the first pull request of the example project over a cache that cannot write.\<close>

theorem cache_write_failure_witness:
  "PullRequestsGet (example_remote True)
       (if pr_MergedAt (example_pr 7) = 0 then pr_ClosedAt (example_pr 7)
        else pr_MergedAt (example_pr 7))
       ''o'' ''p'' (pr_Number (example_pr 7)) [] =
     ((example_pr 7, Some (CacheWriteError ''read-only store'')), [])
   \<and> MergedPulls_body example_ext (example_remote True) ''o'' ''p'' 10 20 {} {} (example_pr 7) [] =
       (Skip, [])"
  by (rule cache_write_failure [where ?w1.0 = "[]" and ?w2.0 = "[]" and resp = None])
     (simp_all add: example_remote_def example_pr_def example_ext_def HasSuffix_def)

text \<open>
  Where the claim as written fails: the detail of pull request 7 is fetched and the write
  fails; the helper hands back the pull request with the error, and \<open>MergedPulls\<close> returns
  nothing, where the same run over a cache that can write returns both pull requests.
\<close>

theorem cache_write_failure_counterexample:
  "PullRequestsGet (example_remote True) 14 ''o'' ''p'' 7 [] =
     ((example_pr 7, Some (CacheWriteError ''read-only store'')), [])
   \<and> MergedPulls example_ext (example_remote True) ''o'' ''p'' 10 20 [] [] [] = Some (Inr [], [])
   \<and> map_option fst (MergedPulls example_ext (example_remote False) ''o'' ''p'' 10 20 [] [] []) =
       Some (Inr [example_pr 7, example_pr 8])"
  by (simp add: MergedPulls_run example_defs)

lemma PullRequestsGet_logged:
  "snd (snd (PullRequestsGet (logged R) t org project num (w, l))) =
     l @ [(''pr-'' @ org @ ''-'' @ project @ ''-'' @ fmt_d num, t)]"
  by (simp add: PullRequestsGet_def logged_def Let_def
           split: prod.splits option.splits sum.splits raw.splits)

lemma IssuesGet_logged:
  "snd (snd (IssuesGet (logged R) t org project num (w, l))) =
     l @ [(''issue-'' @ org @ ''-'' @ project @ ''-'' @ fmt_d num, t)]"
  by (simp add: IssuesGet_def logged_def Let_def
           split: prod.splits option.splits sum.splits raw.splits)

text \<open>
  C4, as the code has it. The loop body of \<open>MergedPulls\<close> reads the cache once for an item
  that passes the filters of the list level, under the key of the pull request and with
  the merge time of the list item, else its close time, else its update time; an item
  that does not pass them causes no read. The loop body of \<open>issues\<close> reads the cache once
  for an item that passes its filters, with the close time of the list item, else its
  update time, else its creation time. (In \<open>MergedPulls\<close> the close time is known to be
  set at that point, so the update time is never reached.)
\<close>

theorem asOfTime:
  "snd (snd (MergedPulls_body X (logged R) org project since until mu mb pr (w, []))) =
     (if since \<le> pr_UpdatedAt pr \<and> pr_ClosedAt pr \<noteq> 0 \<and> since \<le> pr_ClosedAt pr
         \<and> pr_ClosedAt pr \<le> until
         \<and> (mu = {} \<or> ToLower (unicode_ToLower X) (Login (pr_User pr)) \<in> mu)
         \<and> \<not> isBot X (pr_User pr) \<and> pr_State pr = ''closed''
      then [(''pr-'' @ org @ ''-'' @ project @ ''-'' @ fmt_d (pr_Number pr),
             if pr_MergedAt pr \<noteq> 0 then pr_MergedAt pr
             else if pr_ClosedAt pr \<noteq> 0 then pr_ClosedAt pr else pr_UpdatedAt pr)]
      else [])
   \<and> snd (snd (issues_body X (logged R) org project since until mu state i (v, []))) =
     (if \<not> is_PullRequestLinks i \<and> since \<le> is_UpdatedAt i
         \<and> (state = ''closed'' \<and> is_ClosedAt i \<noteq> 0 \<and> since \<le> is_ClosedAt i \<and> is_ClosedAt i \<le> until
             \<or> state \<noteq> ''closed'')
         \<and> (state = [] \<or> is_State i = state)
      then [(''issue-'' @ org @ ''-'' @ project @ ''-'' @ fmt_d (is_Number i),
             if is_ClosedAt i \<noteq> 0 then is_ClosedAt i
             else if is_UpdatedAt i \<noteq> 0 then is_UpdatedAt i else is_CreatedAt i)]
      else [])"
proof
  let ?t = "if pr_MergedAt pr \<noteq> 0 then pr_MergedAt pr
             else if pr_ClosedAt pr \<noteq> 0 then pr_ClosedAt pr else pr_UpdatedAt pr"
  obtain f e u l where g: "PullRequestsGet (logged R) ?t org project (pr_Number pr) (w, []) = ((f, e), (u, l))"
    by (metis surj_pair)
  have l: "l = [(''pr-'' @ org @ ''-'' @ project @ ''-'' @ fmt_d (pr_Number pr), ?t)]"
    using PullRequestsGet_logged [of R ?t org project "pr_Number pr" w "[]"] g by simp
  show "snd (snd (MergedPulls_body X (logged R) org project since until mu mb pr (w, []))) =
     (if since \<le> pr_UpdatedAt pr \<and> pr_ClosedAt pr \<noteq> 0 \<and> since \<le> pr_ClosedAt pr
         \<and> pr_ClosedAt pr \<le> until
         \<and> (mu = {} \<or> ToLower (unicode_ToLower X) (Login (pr_User pr)) \<in> mu)
         \<and> \<not> isBot X (pr_User pr) \<and> pr_State pr = ''closed''
      then [(''pr-'' @ org @ ''-'' @ project @ ''-'' @ fmt_d (pr_Number pr), ?t)]
      else [])"
    unfolding MergedPulls_body_def Let_def
    using g l by (cases "pr_MergedAt pr = 0") (auto split: if_splits)
next
  let ?t = "if is_ClosedAt i \<noteq> 0 then is_ClosedAt i
             else if is_UpdatedAt i \<noteq> 0 then is_UpdatedAt i else is_CreatedAt i"
  obtain f e u l where g: "IssuesGet (logged R) ?t org project (is_Number i) (v, []) = ((f, e), (u, l))"
    by (metis surj_pair)
  have l: "l = [(''issue-'' @ org @ ''-'' @ project @ ''-'' @ fmt_d (is_Number i), ?t)]"
    using IssuesGet_logged [of R ?t org project "is_Number i" v "[]"] g by simp
  have d: "issueDate i = ?t" by (simp add: issueDate_def)
  show "snd (snd (issues_body X (logged R) org project since until mu state i (v, []))) =
     (if \<not> is_PullRequestLinks i \<and> since \<le> is_UpdatedAt i
         \<and> (state = ''closed'' \<and> is_ClosedAt i \<noteq> 0 \<and> since \<le> is_ClosedAt i \<and> is_ClosedAt i \<le> until
             \<or> state \<noteq> ''closed'')
         \<and> (state = [] \<or> is_State i = state)
      then [(''issue-'' @ org @ ''-'' @ project @ ''-'' @ fmt_d (is_Number i), ?t)]
      else [])"
    unfolding issues_body_def Let_def d
    using g l by (auto split: if_splits)
qed

text \<open>The instance: an issue of the example project, closed at 15.\<close>

theorem asOfTime_witness:
  "snd (snd (issues_body example_ext (logged (example_remote False)) ''o'' ''p'' 10 20 {} ''closed''
                (example_issue 2 ''alice'') ([], []))) = [(''issue-o-p-2'', 15)]"
  using asOfTime [where X = example_ext and R = "example_remote False" and org = "''o''"
      and project = "''p''" and since = 10 and until = 20 and mu = "{}" and state = "''closed''"
      and i = "example_issue 2 ''alice''" and v = "[]"]
  by (simp add: example_issue_def fmt_d_digits)

text \<open>
  Where the claim as written fails: a pull request closed at 15 and merged at 14. The
  time passed to the cache is 14, the merge time, not the close time.
\<close>

theorem asOfTime_counterexample:
  "pr_ClosedAt (example_pr 7) = 15
   \<and> snd (snd (MergedPulls_body example_ext (logged (example_remote False)) ''o'' ''p'' 10 20 {} {}
                (example_pr 7) ([], []))) = [(''pr-o-p-7'', 14)]"
  by (simp add: MergedPulls_body_def PullRequestsGet_def logged_def RetryGithubCall_def
        HasSuffix_def Let_def example_defs)

section \<open>Properties of the page aggregation\<close>

lemma pr_pages_loop_served:
  assumes "offset_pages R org project opts w pages w'"
  shows "pr_pages_loop R org project opts acc w = Some (Inr (acc @ concat pages), w')"
  using assms
proof (induction arbitrary: acc rule: offset_pages.induct)
  case (empty_page opts w resp w1)
  then show ?case
    by (subst pr_pages_loop.simps) (simp add: RetryGithubCall_def)
next
  case (no_next_page opts w items resp w1)
  then show ?case
    by (subst pr_pages_loop.simps) (simp add: RetryGithubCall_def)
next
  case (next_page opts w items resp w1 rest w')
  have "pr_pages_loop R org project opts acc w =
          pr_pages_loop R org project (opts\<lparr>plo_Page := NextPage resp\<rparr>) (acc @ items) w1"
    using next_page.hyps by (subst pr_pages_loop.simps) (simp add: RetryGithubCall_def)
  then show ?case by (simp add: next_page.IH)
qed

lemma issue_pages_loop_served:
  assumes "cursor_pages R org project opts cursor w pages w'"
  shows "issue_pages_loop R org project opts cursor acc w = Some (Inr (acc @ concat pages), w')"
  using assms
proof (induction arbitrary: acc rule: cursor_pages.induct)
  case (no_response opts cursor w items w1)
  then show ?case
    by (subst issue_pages_loop.simps) (simp add: RetryGithubCall_def)
next
  case (no_cursor opts cursor w items resp w1)
  then show ?case
    by (subst issue_pages_loop.simps) (simp add: RetryGithubCall_def)
next
  case (next_cursor opts cursor w items resp w1 rest w')
  have "issue_pages_loop R org project opts cursor acc w =
          issue_pages_loop R org project (cursor_request opts cursor) (After resp) (acc @ items) w1"
    using next_cursor.hyps by (subst issue_pages_loop.simps) (simp add: RetryGithubCall_def)
  then show ?case by (simp add: next_cursor.IH)
qed

text \<open>
  C5. \<open>fetchAllPullRequestPages\<close>, called with no page number set, asks for page 1 first.
  When the server serves non-empty pages that each announce a next page, and then a page
  that is empty or announces none, the aggregation returns there, with the items of all
  the pages in order. \<open>fetchAllIssuePages\<close> follows cursors: when every response but the
  last carries a cursor and the last carries none, it returns at the last one with the
  items of all the pages in order; a page with no items and a cursor does not end it.
\<close>

theorem page_aggregation:
  assumes "plo_Page opts = 0"
    and "offset_pages R org project (opts\<lparr>plo_Page := 1\<rparr>) w pages w'"
    and "cursor_pages R org project (cursor_setup iopts) [] v ipages v'"
  shows "fetchAllPullRequestPages R org project opts w = Some (Inr (concat pages), w')
       \<and> fetchAllIssuePages R org project iopts v = Some (Inr (concat ipages), v')"
  using assms pr_pages_loop_served [OF assms(2), of "[]"] issue_pages_loop_served [OF assms(3), of "[]"]
  by (simp add: fetchAllPullRequestPages_def fetchAllIssuePages_def)

text \<open>
  The instance: the example project, two pages of pull requests and three pages of
  issues, the second of them empty with a cursor.
\<close>

theorem page_aggregation_witness:
  "fetchAllPullRequestPages (example_remote False) ''o'' ''p'' MergedPulls_opts [] =
       Some (Inr (concat [[example_pr 7], [example_pr 8, old_pr]]), [])
   \<and> fetchAllIssuePages (example_remote False) ''o'' ''p'' (issues_opts ''closed'') [] =
       Some (Inr (concat [[example_issue 1 ''deploy-bot''], [],
                          example_issue 2 ''alice'' # old_issues]), [])"
proof (rule page_aggregation)
  show "plo_Page MergedPulls_opts = 0" by (simp add: MergedPulls_opts_def)
  show "offset_pages (example_remote False) ''o'' ''p'' (MergedPulls_opts\<lparr>plo_Page := 1\<rparr>) []
          [[example_pr 7], [example_pr 8, old_pr]] []"
    apply (rule offset_pages.next_page [where resp = "\<lparr> NextPage = 2, After = [] \<rparr>" and ?w1.0 = "[]"])
       apply (simp add: example_remote_def)
      apply simp
     apply simp
    apply (rule offset_pages.no_next_page [where resp = "\<lparr> NextPage = 0, After = [] \<rparr>"])
      apply (simp add: example_remote_def)
     apply simp
    apply simp
    done
  show "cursor_pages (example_remote False) ''o'' ''p'' (cursor_setup (issues_opts ''closed'')) [] []
          [[example_issue 1 ''deploy-bot''], [], example_issue 2 ''alice'' # old_issues] []"
    apply (rule cursor_pages.next_cursor [where resp = "\<lparr> NextPage = 0, After = ''c1'' \<rparr>" and ?w1.0 = "[]"])
      apply (simp add: example_remote_def cursor_request_def)
     apply simp
    apply (rule cursor_pages.next_cursor [where resp = "\<lparr> NextPage = 0, After = ''c2'' \<rparr>" and ?w1.0 = "[]"])
      apply (simp add: example_remote_def cursor_request_def)
     apply simp
    apply (rule cursor_pages.no_cursor [where resp = "\<lparr> NextPage = 0, After = [] \<rparr>"])
     apply (simp add: example_remote_def cursor_request_def)
    apply simp
    done
qed

section \<open>The bot rule and the branch filter\<close>

lemma issueOpener_loop_bot:
  "HasSuffix a ''bot'' \<Longrightarrow> uMap a = None \<Longrightarrow> issueOpener_loop uni mu is uMap a = None"
proof (induction "is" arbitrary: uMap)
  case Nil
  then show ?case by simp
next
  case (Cons i rest)
  have upd: "(uMap(isum_Author i \<mapsto> n)) a = None" if "\<not> HasSuffix (isum_Author i) ''bot''" for n
    using that Cons.prems by auto
  have keep: "issueOpener_loop uni mu rest uMap a = None"
    using Cons.prems by (intro Cons.IH)
  have bump: "issueOpener_loop uni mu rest (uMap(isum_Author i \<mapsto> n)) a = None"
    if "\<not> HasSuffix (isum_Author i) ''bot''" for n
    using Cons.prems(1) upd [OF that] by (intro Cons.IH)
  show ?case
    using keep bump by (auto simp: Let_def)
qed

text \<open>
  C8, as the code has it. \<open>MergedPulls\<close> rejects a pull request whose author \<open>isBot\<close>
  reports as a bot, before anything is fetched for it. \<open>issues\<close> has no bot rule; for
  issues the bots are left out when the leaderboard counts: a login that ends in
  \<open>bot\<close> is never a key of the issue-opener tally, whatever the allow-list holds.
\<close>

theorem bot_rule:
  assumes "isBot X (pr_User pr)" and "HasSuffix a ''bot''"
  shows "(MergedPulls_body X R org project since until mu mb pr w = (Stop, w)
          \<or> MergedPulls_body X R org project since until mu mb pr w = (Skip, w))
       \<and> issueOpenerChart_uMap X is users a = None"
  using assms by (simp add: MergedPulls_body_def issueOpenerChart_uMap_def issueOpener_loop_bot)

theorem bot_rule_witness:
  "(MergedPulls_body example_ext (example_remote False) ''o'' ''p'' 10 20 {} {}
       ((example_pr 7)\<lparr>pr_User := \<lparr> Login = ''deploy-bot'', UserType = ''User'' \<rparr>\<rparr>) [] = (Stop, [])
    \<or> MergedPulls_body example_ext (example_remote False) ''o'' ''p'' 10 20 {} {}
       ((example_pr 7)\<lparr>pr_User := \<lparr> Login = ''deploy-bot'', UserType = ''User'' \<rparr>\<rparr>) [] = (Skip, []))
   \<and> issueOpenerChart_uMap example_ext
        [\<lparr> isum_URL = ''u'', isum_Date = ''d'', isum_Author = ''deploy-bot'', isum_Closer = ''carol'',
           isum_Project = ''p'', isum_Type = [], isum_Title = ''bug'' \<rparr>] [''deploy-bot''] ''deploy-bot'' = None"
  by (rule bot_rule) (simp_all add: example_ext_def example_pr_def HasSuffix_def)

text \<open>
  Where the claim as written fails: the issue pipeline returns the issue that
  \<open>deploy-bot\<close> opened.
\<close>

theorem bot_rule_counterexample:
  "map_option fst (issues example_ext (example_remote False) ''o'' ''p'' 10 20 [] ''closed'' []) =
     Some (Inr [example_issue 1 ''deploy-bot'', example_issue 2 ''alice''])
   \<and> isBot example_ext (is_User (example_issue 1 ''deploy-bot''))
   \<and> HasSuffix (Login (is_User (example_issue 1 ''deploy-bot''))) ''bot''"
  by (simp add: issues_run example_defs)

lemma ascii_lower_not_upper: "\<not> is_ascii_upper (ascii_lower c)"
  by (auto simp: is_ascii_upper_def ascii_lower_def Let_def)

lemma ToLower_no_upper:
  assumes "list_all is_ascii b \<or> \<not> list_ex is_ascii_upper (uni b)"
  shows "\<not> list_ex is_ascii_upper (ToLower uni b)"
  using assms
  by (auto simp: ToLower_def list_ex_iff ascii_lower_not_upper)

text \<open>
  C10, as the code has it. With a branch allow-list that is not empty, \<open>MergedPulls\<close>
  returns a pull request only if its base ref, as it is written, equals the lowercased
  form of some entry. So no returned pull request has an ASCII uppercase letter in its
  base ref, and an entry with an uppercase letter never admits a pull request whose base
  ref is written like the entry; what it admits are the base refs equal to its lowercased
  form. For an entry that is not pure ASCII the lowering is Go's Unicode mapping, assumed
  not to produce ASCII uppercase letters.
\<close>

theorem branch_filter:
  assumes "MergedPulls X R org project since until users branches w = Some (Inr result, w')"
    and "branches \<noteq> []" and "f \<in> set result"
    and "\<And>b. b \<in> set branches \<Longrightarrow> \<not> list_all is_ascii b
           \<Longrightarrow> \<not> list_ex is_ascii_upper (unicode_ToLower X b)"
  shows "pr_BaseRef f \<in> set (map (ToLower (unicode_ToLower X)) branches)
       \<and> \<not> list_ex is_ascii_upper (pr_BaseRef f)
       \<and> list_all (\<lambda>b. pr_BaseRef f = b \<longrightarrow> \<not> list_ex is_ascii_upper b) branches"
proof -
  have m: "pr_BaseRef f \<in> set (map (ToLower (unicode_ToLower X)) branches)"
    using MergedPulls_result [OF assms(1)] assms(2,3) by (auto simp: list_all_iff)
  then obtain b where b: "b \<in> set branches" "pr_BaseRef f = ToLower (unicode_ToLower X) b"
    by auto
  have "\<not> list_ex is_ascii_upper (ToLower (unicode_ToLower X) b)"
    by (rule ToLower_no_upper) (use assms(4) [OF b(1)] in blast)
  then have u: "\<not> list_ex is_ascii_upper (pr_BaseRef f)" by (simp add: b(2))
  with m show ?thesis by (simp add: list_all_iff)
qed

lemma ToLower_examples: "ToLower u ''Main'' = ''main''" "ToLower u ''main'' = ''main''"
  by code_simp+

text \<open>The instance: the allow-list \<open>main\<close> and the first pull request of the example project.\<close>

theorem branch_filter_witness:
  "pr_BaseRef (example_pr 7) \<in> set (map (ToLower (unicode_ToLower example_ext)) [''main''])
   \<and> \<not> list_ex is_ascii_upper (pr_BaseRef (example_pr 7))
   \<and> list_all (\<lambda>b. pr_BaseRef (example_pr 7) = b \<longrightarrow> \<not> list_ex is_ascii_upper b) [''main'']"
proof -
  obtain W where run:
    "MergedPulls example_ext (example_remote False) ''o'' ''p'' 10 20 [] [''main''] [] =
       Some (Inr [example_pr 7, example_pr 8], W)"
    by (simp add: MergedPulls_run example_defs ToLower_examples)
  show ?thesis
    by (rule branch_filter [OF run]) (simp_all add: is_ascii_def)
qed

text \<open>
  Where the claim as written fails: the entry \<open>Main\<close> has an uppercase letter and admits
  the pull requests whose base ref is \<open>main\<close>.
\<close>

theorem branch_filter_counterexample:
  "list_ex is_ascii_upper ''Main''
   \<and> pr_BaseRef (example_pr 7) = ''main''
   \<and> map_option fst
        (MergedPulls example_ext (example_remote False) ''o'' ''p'' 10 20 [] [''Main''] []) =
       Some (Inr [example_pr 7, example_pr 8])"
  by (simp add: MergedPulls_run example_defs ToLower_examples is_ascii_upper_def)

end
